theory Spec2Isabelle
  imports Complex_Main
begin

section \<open>Python values and errors\<close>

text \<open>
  The exceptions that the modelled functions of \<^verbatim>\<open>vrm_types.py\<close> can raise:
  \<^verbatim>\<open>list.pop\<close> on an empty list raises IndexError, float division by zero raises
  ZeroDivisionError, and \<^verbatim>\<open>struct.pack\<close> raises OverflowError for a number too
  large for a 32-bit float and \<^verbatim>\<open>struct.error\<close> for a wrong number of arguments.
\<close>

datatype py_error = IndexError | ZeroDivisionError | OverflowError | StructError

text \<open>
  A decoded JSON document, as \<^verbatim>\<open>json.loads\<close> produces it. A dict is an association
  list (looked up with \<open>map_of\<close>); a Python dict holds every key once.
\<close>

datatype json =
    JNone
  | JBool bool
  | JInt int
  | JFloat real
  | JStr string
  | JList "json list"
  | JDict "(string \<times> json) list"

text \<open>An element of an attribute path: \<^verbatim>\<open>Union[int, str]\<close>.\<close>

datatype attr = AInt int | AStr string

section \<open>nested\_json\_value\_getter (vrm\_types.py, lines 409--451)\<close>

text \<open>
  \<^verbatim>\<open>make_json_return_value\<close> tests the type of \<open>v\<close> in the order None, int, float,
  bool, str, list, dict and returns \<open>v\<close> itself in every branch (a Python bool is an
  int, so it leaves through the int branch); its last line, for a value of no JSON type,
  prints a warning and returns \<open>v\<close> too.
\<close>

fun make_json_return_value :: "json \<Rightarrow> json" where
  "make_json_return_value JNone = JNone"
| "make_json_return_value (JInt i) = JInt i"
| "make_json_return_value (JBool b) = JBool b"
| "make_json_return_value (JFloat x) = JFloat x"
| "make_json_return_value (JStr s) = JStr s"
| "make_json_return_value (JList xs) = JList xs"
| "make_json_return_value (JDict kvs) = JDict kvs"

text \<open>
  The getter. The equations follow the source's order: \<^verbatim>\<open>json is None\<close> first, then
  \<^verbatim>\<open>attrs.pop(0)\<close> (IndexError on the empty list), then the list branch guarded by
  \<^verbatim>\<open>0 <= attr < len(json)\<close>, then the dict branch guarded by \<^verbatim>\<open>attr in json\<close>, and
  the final \<^verbatim>\<open>return default\<close>. The popped list \<open>attrs\<close> is the tail of the path.
\<close>

fun nested_json_value_getter :: "json \<Rightarrow> attr list \<Rightarrow> json \<Rightarrow> py_error + json" where
  "nested_json_value_getter JNone attrs dflt = Inr dflt"
| "nested_json_value_getter json [] dflt = Inl IndexError"
| "nested_json_value_getter (JList xs) (AInt i # attrs) dflt =
     (if 0 \<le> i \<and> i < int (length xs) then
        (if attrs = [] then Inr (make_json_return_value (xs ! nat i))
         else nested_json_value_getter (xs ! nat i) attrs dflt)
      else Inr dflt)"
| "nested_json_value_getter (JDict kvs) (AStr k # attrs) dflt =
     (case map_of kvs k of
        Some v \<Rightarrow>
          (if attrs = [] then Inr (make_json_return_value v)
           else nested_json_value_getter v attrs dflt)
      | None \<Rightarrow> Inr dflt)"
| "nested_json_value_getter json (attr # attrs) dflt = Inr dflt"

text \<open>
  The path semantics in the words of the claim: one step of a path matches when an
  integer indexes a list within range or a string is a key of a dict; the value found at
  the end of a path is the result of matching every step in turn.
\<close>

fun path_step :: "json \<Rightarrow> attr \<Rightarrow> json option" where
  "path_step (JList xs) (AInt i) =
     (if 0 \<le> i \<and> i < int (length xs) then Some (xs ! nat i) else None)"
| "path_step (JDict kvs) (AStr k) = map_of kvs k"
| "path_step json attr = None"

fun value_at_path :: "json \<Rightarrow> attr list \<Rightarrow> json option" where
  "value_at_path json [] = Some json"
| "value_at_path json (attr # attrs) =
     (case path_step json attr of None \<Rightarrow> None | Some v \<Rightarrow> value_at_path v attrs)"

section \<open>The HumanBones tables (vrm\_types.py, lines 126--251)\<close>

definition HumanBones_center_req :: "string list" where
  "HumanBones_center_req = [''hips'', ''spine'', ''chest'', ''neck'', ''head'']"

definition HumanBones_left_leg_req :: "string list" where
  "HumanBones_left_leg_req = [''leftUpperLeg'', ''leftLowerLeg'', ''leftFoot'']"

definition HumanBones_left_arm_req :: "string list" where
  "HumanBones_left_arm_req = [''leftUpperArm'', ''leftLowerArm'', ''leftHand'']"

definition HumanBones_right_leg_req :: "string list" where
  "HumanBones_right_leg_req = [''rightUpperLeg'', ''rightLowerLeg'', ''rightFoot'']"

definition HumanBones_right_arm_req :: "string list" where
  "HumanBones_right_arm_req = [''rightUpperArm'', ''rightLowerArm'', ''rightHand'']"

definition HumanBones_requires :: "string list" where
  "HumanBones_requires =
     HumanBones_center_req @ HumanBones_left_leg_req @ HumanBones_right_leg_req
     @ HumanBones_left_arm_req @ HumanBones_right_arm_req"

definition HumanBones_left_arm_def :: "string list" where
  "HumanBones_left_arm_def =
     [''leftShoulder'',
      ''leftThumbProximal'', ''leftThumbIntermediate'', ''leftThumbDistal'',
      ''leftIndexProximal'', ''leftIndexIntermediate'', ''leftIndexDistal'',
      ''leftMiddleProximal'', ''leftMiddleIntermediate'', ''leftMiddleDistal'',
      ''leftRingProximal'', ''leftRingIntermediate'', ''leftRingDistal'',
      ''leftLittleProximal'', ''leftLittleIntermediate'', ''leftLittleDistal'']"

definition HumanBones_right_arm_def :: "string list" where
  "HumanBones_right_arm_def =
     [''rightShoulder'',
      ''rightThumbProximal'', ''rightThumbIntermediate'', ''rightThumbDistal'',
      ''rightIndexProximal'', ''rightIndexIntermediate'', ''rightIndexDistal'',
      ''rightMiddleProximal'', ''rightMiddleIntermediate'', ''rightMiddleDistal'',
      ''rightRingProximal'', ''rightRingIntermediate'', ''rightRingDistal'',
      ''rightLittleProximal'', ''rightLittleIntermediate'', ''rightLittleDistal'']"

definition HumanBones_center_def :: "string list" where
  "HumanBones_center_def = [''upperChest'', ''jaw'']"

definition HumanBones_left_leg_def :: "string list" where
  "HumanBones_left_leg_def = [''leftToes'']"

definition HumanBones_right_leg_def :: "string list" where
  "HumanBones_right_leg_def = [''rightToes'']"

definition HumanBones_defines :: "string list" where
  "HumanBones_defines =
     [''leftEye'', ''rightEye''] @ HumanBones_center_def @ HumanBones_left_leg_def
     @ HumanBones_right_leg_def @ HumanBones_left_arm_def @ HumanBones_right_arm_def"

text \<open>
  The \<^verbatim>\<open>hierarchy\<close> dict literal (child : parent), entry by entry in the order of the
  source, kept as an association list so that a key written twice would show.
\<close>

definition HumanBones_hierarchy :: "(string \<times> string) list" where
  "HumanBones_hierarchy =
     [(''leftEye'', ''head''),
      (''rightEye'', ''head''),
      (''jaw'', ''head''),
      (''head'', ''neck''),
      (''neck'', ''upperChest''),
      (''upperChest'', ''chest''),
      (''chest'', ''spine''),
      (''spine'', ''hips''),
      (''rightShoulder'', ''chest''),
      (''rightUpperArm'', ''rightShoulder''),
      (''rightLowerArm'', ''rightUpperArm''),
      (''rightHand'', ''rightLowerArm''),
      (''rightThumbProximal'', ''rightHand''),
      (''rightThumbIntermediate'', ''rightThumbProximal''),
      (''rightThumbDistal'', ''rightThumbIntermediate''),
      (''rightIndexProximal'', ''rightHand''),
      (''rightIndexIntermediate'', ''rightIndexProximal''),
      (''rightIndexDistal'', ''rightIndexIntermediate''),
      (''rightMiddleProximal'', ''rightHand''),
      (''rightMiddleIntermediate'', ''rightMiddleProximal''),
      (''rightMiddleDistal'', ''rightMiddleIntermediate''),
      (''rightRingProximal'', ''rightHand''),
      (''rightRingIntermediate'', ''rightRingProximal''),
      (''rightRingDistal'', ''rightRingIntermediate''),
      (''rightLittleProximal'', ''rightHand''),
      (''rightLittleIntermediate'', ''rightLittleProximal''),
      (''rightLittleDistal'', ''rightLittleIntermediate''),
      (''leftShoulder'', ''chest''),
      (''leftUpperArm'', ''leftShoulder''),
      (''leftLowerArm'', ''leftUpperArm''),
      (''leftHand'', ''leftLowerArm''),
      (''leftThumbProximal'', ''leftHand''),
      (''leftThumbIntermediate'', ''leftThumbProximal''),
      (''leftThumbDistal'', ''leftThumbIntermediate''),
      (''leftIndexProximal'', ''leftHand''),
      (''leftIndexIntermediate'', ''leftIndexProximal''),
      (''leftIndexDistal'', ''leftIndexIntermediate''),
      (''leftMiddleProximal'', ''leftHand''),
      (''leftMiddleIntermediate'', ''leftMiddleProximal''),
      (''leftMiddleDistal'', ''leftMiddleIntermediate''),
      (''leftRingProximal'', ''leftHand''),
      (''leftRingIntermediate'', ''leftRingProximal''),
      (''leftRingDistal'', ''leftRingIntermediate''),
      (''leftLittleProximal'', ''leftHand''),
      (''leftLittleIntermediate'', ''leftLittleProximal''),
      (''leftLittleDistal'', ''leftLittleIntermediate''),
      (''leftUpperLeg'', ''hips''),
      (''leftLowerLeg'', ''leftUpperLeg''),
      (''leftFoot'', ''leftLowerLeg''),
      (''leftToes'', ''leftFoot''),
      (''rightUpperLeg'', ''hips''),
      (''rightLowerLeg'', ''rightUpperLeg''),
      (''rightFoot'', ''rightLowerLeg''),
      (''rightToes'', ''rightFoot'')]"

text \<open>
  Reading the table: \<open>parent_of n\<close> is \<^verbatim>\<open>hierarchy.get(n)\<close>, \<open>key_count n\<close> is how
  often \<open>n\<close> is written as a key, and \<open>parent_chain k n\<close> is the list of names met by
  following parent links from \<open>n\<close> up to \<open>''hips''\<close> through at most \<open>k\<close> links
  (\<open>None\<close> when a name on the way has no entry or the links are used up).
\<close>

definition parent_of :: "string \<Rightarrow> string option" where
  "parent_of n = map_of HumanBones_hierarchy n"

definition key_count :: "string \<Rightarrow> nat" where
  "key_count n = length (filter (\<lambda>kv. fst kv = n) HumanBones_hierarchy)"

fun parent_chain :: "nat \<Rightarrow> string \<Rightarrow> string list option" where
  "parent_chain 0 n = (if n = ''hips'' then Some [n] else None)"
| "parent_chain (Suc k) n =
     (if n = ''hips'' then Some [n]
      else case parent_of n of
             None \<Rightarrow> None
           | Some p \<Rightarrow> map_option ((#) n) (parent_chain k p))"

text \<open>
  A name is rooted at hips when its chain of parents exists within as many links as the
  table has entries, starts at the name, ends at \<open>''hips''\<close> and meets no name twice.
\<close>

definition rooted_at_hips :: "string \<Rightarrow> bool" where
  "rooted_at_hips n =
     (case parent_chain (length HumanBones_hierarchy) n of
        None \<Rightarrow> False
      | Some chain \<Rightarrow> distinct chain \<and> hd chain = n \<and> last chain = ''hips'')"

section \<open>The armature operator (make\_armature.py)\<close>

text \<open>
  Numbers. A Python float is modelled by a real number and the arithmetic of the source
  is taken exactly: a literal such as \<^verbatim>\<open>0.3\<close> is the rational \<open>3/10\<close>, and the rounding
  of each operation to binary64 is left out. What the source states "within
  floating-point tolerance" is stated here as an exact identity over the reals.

  Positions are triples of floats. The state of a run is \<open>rig\<close>: the bones of the
  armature in the order \<^verbatim>\<open>edit_bones.new\<close> created them, and the local dict
  \<^verbatim>\<open>bone_dic\<close>. A bone object of the source is a reference, modelled by the index of the
  bone in \<open>edit_bones\<close>; reading an attribute goes through \<open>bone\<close>, writing one replaces
  the entry at that index, so every holder of the reference sees the change.
\<close>

type_synonym vec3 = "real \<times> real \<times> real"

record edit_bone =
  name :: string
  head :: vec3
  tail :: vec3
  head_radius :: real
  tail_radius :: real
  envelope_distance :: real
  roll :: real
  parent :: "nat option"

record rig =
  edit_bones :: "edit_bone list"
  bone_dic :: "string \<Rightarrow> nat option"

definition bone :: "rig \<Rightarrow> nat \<Rightarrow> edit_bone" where
  "bone armature b = edit_bones armature ! b"

text \<open>The length of a bone is the distance from its head to its tail.\<close>

definition distance :: "vec3 \<Rightarrow> vec3 \<Rightarrow> real" where
  "distance p q =
     (case p of (px, py, pz) \<Rightarrow> case q of (qx, qy, qz) \<Rightarrow>
        sqrt ((qx - px)\<^sup>2 + (qy - py)\<^sup>2 + (qz - pz)\<^sup>2))"

definition bone_length :: "edit_bone \<Rightarrow> real" where
  "bone_length b = distance (head b) (tail b)"

text \<open>\<^verbatim>\<open>math.radians\<close>.\<close>

definition radians :: "real \<Rightarrow> real" where
  "radians degrees = degrees * pi / 180"

subsection \<open>bone\_add and x\_mirror\_bones\_add (lines 117--175)\<close>

text \<open>
  \<^verbatim>\<open>bone_add\<close> asks the host for a new bone under the given name, sets its attributes
  and stores it in \<^verbatim>\<open>bone_dic\<close> under that name with \<^verbatim>\<open>dict.update\<close>. The body has no
  test and no \<^verbatim>\<open>raise\<close>: the model is a total function. The field \<open>name\<close> is the name
  requested of the host. The defaults \<^verbatim>\<open>parent_bone=None, radius=0.1, roll=0\<close> are
  written out at each call.
\<close>

definition bone_add ::
  "rig \<Rightarrow> string \<Rightarrow> vec3 \<Rightarrow> vec3 \<Rightarrow> nat option \<Rightarrow> real \<Rightarrow> real \<Rightarrow> nat \<times> rig" where
  "bone_add armature bone_name head_pos tail_pos parent_bone radius roll_degrees =
     (let added_bone = length (edit_bones armature);
          new_bone = \<lparr>name = bone_name, head = head_pos, tail = tail_pos,
                      head_radius = radius, tail_radius = radius,
                      envelope_distance = 0.01, roll = radians roll_degrees,
                      parent = parent_bone\<rparr>
      in (added_bone,
          armature\<lparr>edit_bones := edit_bones armature @ [new_bone],
                    bone_dic := (bone_dic armature)(bone_name \<mapsto> added_bone)\<rparr>))"

text \<open>\<^verbatim>\<open>[pos * axis for pos, axis in zip(right_head_pos, (-1, 1, 1))]\<close>\<close>

definition mirror_x :: "vec3 \<Rightarrow> vec3" where
  "mirror_x pos = (case pos of (x, y, z) \<Rightarrow> (x * (- 1), y * 1, z * 1))"

definition x_mirror_bones_add ::
  "rig \<Rightarrow> string \<Rightarrow> vec3 \<Rightarrow> vec3 \<Rightarrow> nat \<times> nat \<Rightarrow> real \<Rightarrow> string
   \<Rightarrow> (nat \<times> nat) \<times> rig" where
  "x_mirror_bones_add armature base_name right_head_pos right_tail_pos parent_bones radius
     bone_type =
     (let right_roll = (if bone_type = ''arm'' then 180
                        else if bone_type = ''leg'' then 90 else 0);
          left_roll = (if bone_type = ''arm'' then 0
                       else if bone_type = ''leg'' then 90 else 0);
          (left_bone, armature1) =
             bone_add armature (base_name @ ''_L'') right_head_pos right_tail_pos
               (Some (fst parent_bones)) radius left_roll;
          (right_bone, armature2) =
             bone_add armature1 (base_name @ ''_R'') (mirror_x right_head_pos)
               (mirror_x right_tail_pos) (Some (snd parent_bones)) radius right_roll
      in ((left_bone, right_bone), armature2))"

definition x_add :: "vec3 \<Rightarrow> real \<Rightarrow> vec3" where
  "x_add pos_a add_x = (case pos_a of (x, y, z) \<Rightarrow> (x + add_x, y + 0, z + 0))"

definition y_add :: "vec3 \<Rightarrow> real \<Rightarrow> vec3" where
  "y_add pos_a add_y = (case pos_a of (x, y, z) \<Rightarrow> (x + 0, y + add_y, z + 0))"

definition z_add :: "vec3 \<Rightarrow> real \<Rightarrow> vec3" where
  "z_add pos_a add_z = (case pos_a of (x, y, z) \<Rightarrow> (x + 0, y + 0, z + add_z))"

subsection \<open>The operator and its properties (lines 8--107)\<close>

record ICYP_OT_MAKE_ARMATURE =
  WIP_with_template_mesh :: bool
  tall :: real
  head_ratio :: real
  head_width_ratio :: real
  aging_ratio :: real
  eye_depth :: real
  shoulder_in_width :: real
  shoulder_width :: real
  arm_length_ratio :: real
  hand_ratio :: real
  finger_1_2_ratio :: real
  finger_2_3_ratio :: real
  nail_bone :: bool
  leg_length_ratio :: real
  leg_width_ratio :: real
  leg_size :: real

definition head_size :: "ICYP_OT_MAKE_ARMATURE \<Rightarrow> real" where
  "head_size self = tall self / head_ratio self"

definition hand_size :: "ICYP_OT_MAKE_ARMATURE \<Rightarrow> real" where
  "hand_size self = head_size self * 0.75 * hand_ratio self"

subsection \<open>fingers (lines 327--377)\<close>

text \<open>The four local values that \<^verbatim>\<open>fingers\<close> computes before it adds bones.\<close>

definition finger_normalize :: "ICYP_OT_MAKE_ARMATURE \<Rightarrow> real" where
  "finger_normalize self =
     1 / (finger_1_2_ratio self * finger_2_3_ratio self + finger_1_2_ratio self + 1)"

definition proximal_finger_len :: "ICYP_OT_MAKE_ARMATURE \<Rightarrow> real \<Rightarrow> real" where
  "proximal_finger_len self finger_len_sum = finger_len_sum * finger_normalize self"

definition intermediate_finger_len :: "ICYP_OT_MAKE_ARMATURE \<Rightarrow> real \<Rightarrow> real" where
  "intermediate_finger_len self finger_len_sum =
     finger_len_sum * finger_normalize self * finger_1_2_ratio self"

definition distal_finger_len :: "ICYP_OT_MAKE_ARMATURE \<Rightarrow> real \<Rightarrow> real" where
  "distal_finger_len self finger_len_sum =
     finger_len_sum * finger_normalize self * finger_1_2_ratio self * finger_2_3_ratio self"

definition fingers ::
  "ICYP_OT_MAKE_ARMATURE \<Rightarrow> rig \<Rightarrow> nat \<times> nat \<Rightarrow> string \<Rightarrow> vec3 \<Rightarrow> real
   \<Rightarrow> ((nat \<times> nat) \<times> (nat \<times> nat) \<times> (nat \<times> nat)) \<times> rig" where
  "fingers self armature hands finger_name proximal_pos finger_len_sum =
     (let (proximal_bones, armature1) =
             x_mirror_bones_add armature (finger_name @ ''_proximal'') proximal_pos
               (x_add proximal_pos (proximal_finger_len self finger_len_sum))
               hands (hand_size self / 18) ''arm'';
          (intermediate_bones, armature2) =
             x_mirror_bones_add armature1 (finger_name @ ''_intermediate'')
               (tail (bone armature1 (fst proximal_bones)))
               (x_add (tail (bone armature1 (fst proximal_bones)))
                  (intermediate_finger_len self finger_len_sum))
               proximal_bones (hand_size self / 18) ''arm'';
          (distal_bones, armature3) =
             x_mirror_bones_add armature2 (finger_name @ ''_distal'')
               (tail (bone armature2 (fst intermediate_bones)))
               (x_add (tail (bone armature2 (fst intermediate_bones)))
                  (distal_finger_len self finger_len_sum))
               intermediate_bones (hand_size self / 18) ''arm'';
          armature4 =
             (if nail_bone self then
                snd (x_mirror_bones_add armature3 (finger_name @ ''_nail'')
                       (tail (bone armature3 (fst distal_bones)))
                       (x_add (tail (bone armature3 (fst distal_bones)))
                          (distal_finger_len self finger_len_sum))
                       distal_bones (hand_size self / 20) ''arm'')
              else armature3)
      in ((proximal_bones, intermediate_bones, distal_bones), armature4))"

subsection \<open>The fresh armature and the declared property defaults\<close>

text \<open>
  \<^verbatim>\<open>make_armature\<close> starts from a new armature object without bones and an empty
  \<^verbatim>\<open>bone_dic\<close>.
\<close>

definition empty_rig :: rig where
  "empty_rig = \<lparr>edit_bones = [], bone_dic = Map.empty\<rparr>"

text \<open>The operator with every property at its declared \<^verbatim>\<open>default\<close> (lines 15--92).\<close>

definition operator_defaults :: ICYP_OT_MAKE_ARMATURE where
  "operator_defaults =
     \<lparr>WIP_with_template_mesh = False, tall = 1.70, head_ratio = 8.0,
      head_width_ratio = 2 / 3, aging_ratio = 0.5, eye_depth = - 0.03,
      shoulder_in_width = 0.05, shoulder_width = 0.08, arm_length_ratio = 1,
      hand_ratio = 1, finger_1_2_ratio = 0.75, finger_2_3_ratio = 0.75,
      nail_bone = False, leg_length_ratio = 0.5, leg_width_ratio = 1, leg_size = 0.26\<rparr>"

subsection \<open>The thumb correction (lines 386--393)\<close>

text \<open>
  The part of \<^verbatim>\<open>mathutils\<close> that the correction uses: the 4x4 matrices
  \<^verbatim>\<open>Matrix.Translation(v)\<close> and \<^verbatim>\<open>Matrix.Rotation(angle, 4, "Z")\<close>, their inverse and
  their action on a point. The host's \<^verbatim>\<open>EditBone.transform(m)\<close> moves the head and the
  tail of the bone by \<open>m\<close> (it also adapts the roll, which line 393 overwrites), and
  \<^verbatim>\<open>bone.matrix.translation\<close> is the head of the bone.
\<close>

datatype matrix = Translation vec3 | Rotation_Z real

fun inverted :: "matrix \<Rightarrow> matrix" where
  "inverted (Translation (vx, vy, vz)) = Translation (- vx, - vy, - vz)"
| "inverted (Rotation_Z angle) = Rotation_Z (- angle)"

fun matrix_apply :: "matrix \<Rightarrow> vec3 \<Rightarrow> vec3" where
  "matrix_apply (Translation (vx, vy, vz)) (x, y, z) = (x + vx, y + vy, z + vz)"
| "matrix_apply (Rotation_Z angle) (x, y, z) =
     (cos angle * x - sin angle * y, sin angle * x + cos angle * y, z)"

definition transform :: "rig \<Rightarrow> nat \<Rightarrow> matrix \<Rightarrow> rig" where
  "transform armature b m =
     armature\<lparr>edit_bones := (edit_bones armature)
       [b := (bone armature b)\<lparr>head := matrix_apply m (head (bone armature b)),
                              tail := matrix_apply m (tail (bone armature b))\<rparr>]\<rparr>"

definition set_roll :: "rig \<Rightarrow> nat \<Rightarrow> real \<Rightarrow> rig" where
  "set_roll armature b r =
     armature\<lparr>edit_bones := (edit_bones armature)[b := (bone armature b)\<lparr>roll := r\<rparr>]\<rparr>"

text \<open>
  Indexing a pair of bones by 0 or 1 and a finger (three pairs) by 0, 1 or 2; the source
  uses no other index.
\<close>

definition pair_nth :: "'a \<times> 'a \<Rightarrow> nat \<Rightarrow> 'a" where
  "pair_nth p i = (if i = 0 then fst p else snd p)"

definition triple_nth :: "'a \<times> 'a \<times> 'a \<Rightarrow> nat \<Rightarrow> 'a" where
  "triple_nth t j = (if j = 0 then fst t else if j = 1 then fst (snd t) else snd (snd t))"

type_synonym finger = "(nat \<times> nat) \<times> (nat \<times> nat) \<times> (nat \<times> nat)"

text \<open>The body of the inner loop, for segment \<open>j\<close> and side \<open>n\<close> with its angle.\<close>

definition thumb_rotate :: "matrix list \<Rightarrow> finger \<Rightarrow> nat \<Rightarrow> rig \<Rightarrow> nat \<times> real \<Rightarrow> rig" where
  "thumb_rotate mats thumbs j armature n_angle =
     (case n_angle of (n, angle) \<Rightarrow>
        let b = pair_nth (triple_nth thumbs j) n;
            armature1 = transform armature b (inverted (mats ! n));
            armature2 = transform armature1 b (Rotation_Z (radians angle));
            armature3 = transform armature2 b (mats ! n)
        in set_roll armature3 b ([0, radians 180] ! n))"

definition thumb_correction :: "rig \<Rightarrow> finger \<Rightarrow> rig" where
  "thumb_correction armature thumbs =
     (let mats = map (\<lambda>i. Translation (head (bone armature (pair_nth (triple_nth thumbs 0) i))))
                   [0, 1]
      in foldl (\<lambda>armature' j.
                  foldl (thumb_rotate mats thumbs j) armature' (enumerate 0 [- 45, 45]))
           armature [0, 1, 2])"

subsection \<open>make\_armature: the bones (lines 109--413)\<close>

text \<open>
  The statements of \<^verbatim>\<open>make_armature\<close> up to the last finger, in the order of the source.
  The result is the armature and the bones that the dict of lines 415--454 names: the
  five centre bones, the nine left/right pairs and the five fingers. The only divisor
  that is not a constant is \<open>head_ratio\<close>, whose declared minimum is 4.
\<close>

definition make_armature_bones ::
  "ICYP_OT_MAKE_ARMATURE \<Rightarrow>
   rig \<times> (nat \<times> nat \<times> nat \<times> nat \<times> nat)
       \<times> ((nat \<times> nat) \<times> (nat \<times> nat) \<times> (nat \<times> nat) \<times> (nat \<times> nat) \<times> (nat \<times> nat)
          \<times> (nat \<times> nat) \<times> (nat \<times> nat) \<times> (nat \<times> nat) \<times> (nat \<times> nat))
       \<times> (finger \<times> finger \<times> finger \<times> finger \<times> finger)" where
  "make_armature_bones self =
     (let armature = empty_rig;
          (root, armature) = bone_add armature ''root'' (0, 0, 0) (0, 0, 0.3) None 0.1 0;
          head_size' = head_size self;
          eight_upside_ratio = 1 - leg_length_ratio self;
          four_upside_ratio =
            (2.5 / 4) * (1 - aging_ratio self)
            + (1 - leg_length_ratio self) * aging_ratio self;
          hip_up_down_ratio =
            eight_upside_ratio * (1 - (8 - head_ratio self) / 4)
            + four_upside_ratio * (8 - head_ratio self) / 4;
          body_separate = tall self * (1 - hip_up_down_ratio);
          neck_len = head_size' * 2 / 3;
          hips_tall = body_separate + head_size' * 3 / 4;
          backbone_len = tall self - hips_tall - head_size' - neck_len / 2;
          chest_len = backbone_len * 12 / 17;
          spine_len = backbone_len * 5 / 17;
          (hips, armature) =
            bone_add armature ''Hips'' (0, 0, body_separate) (0, 0, hips_tall) (Some root)
              0.1 90;
          (spine, armature) =
            bone_add armature ''Spine'' (tail (bone armature hips))
              (z_add (tail (bone armature hips)) spine_len) (Some hips) 0.1 (- 90);
          (chest, armature) =
            bone_add armature ''Chest'' (tail (bone armature spine))
              (z_add (tail (bone armature hips)) backbone_len) (Some spine) 0.1 (- 90);
          (neck, armature) =
            bone_add armature ''Neck'' (0, 0, tall self - head_size' - neck_len / 2)
              (0, 0, tall self - head_size' + neck_len / 2) (Some chest) 0.1 (- 90);
          (head', armature) =
            bone_add armature ''Head'' (0, 0, tall self - head_size' + neck_len / 2)
              (0, 0, tall self) (Some neck) 0.1 (- 90);
          eye_depth' = eye_depth self;
          (eyes, armature) =
            x_mirror_bones_add armature ''eye''
              (head_size' * head_width_ratio self / 5, 0, tall self - head_size' / 2)
              (head_size' * head_width_ratio self / 5, eye_depth', tall self - head_size' / 2)
              (head', head') 0.1 ''other'';
          leg_width = head_size' / 4 * leg_width_ratio self;
          leg_size' = leg_size self;
          leg_bone_length = (body_separate + head_size' * 3 / 8 - tall self * 0.05) / 2;
          (upside_legs, armature) =
            x_mirror_bones_add armature ''Upper_Leg''
              (x_add (0, 0, body_separate + head_size' * 3 / 8) leg_width)
              (x_add (z_add (0, 0, body_separate + head_size' * 3 / 8) (- leg_bone_length))
                 leg_width)
              (hips, hips) (leg_width * 0.9) ''leg'';
          (lower_legs, armature) =
            x_mirror_bones_add armature ''Lower_Leg'' (tail (bone armature (fst upside_legs)))
              (leg_width, 0, tall self * 0.05) upside_legs (leg_width * 0.9) ''leg'';
          (foots, armature) =
            x_mirror_bones_add armature ''Foot'' (tail (bone armature (fst lower_legs)))
              (leg_width, - leg_size' * (2 / 3), 0) lower_legs (leg_width * 0.9) ''leg'';
          (toes, armature) =
            x_mirror_bones_add armature ''Toes'' (tail (bone armature (fst foots)))
              (leg_width, - leg_size', 0) foots (leg_width * 0.5) ''leg'';
          shoulder_in_pos = shoulder_in_width self / 2;
          shoulder_parent = chest;
          (shoulders, armature) =
            x_mirror_bones_add armature ''shoulder''
              (x_add (tail (bone armature shoulder_parent)) shoulder_in_pos)
              (x_add (tail (bone armature shoulder_parent))
                 (shoulder_in_pos + shoulder_width self))
              (shoulder_parent, shoulder_parent) (hand_size self * 0.4) ''arm'';
          arm_length =
            head_size'
            * (1 * (1 - (head_ratio self - 6) / 2) + 1.5 * ((head_ratio self - 6) / 2))
            * arm_length_ratio self;
          (arms, armature) =
            x_mirror_bones_add armature ''Arm'' (tail (bone armature (fst shoulders)))
              (x_add (tail (bone armature (fst shoulders))) arm_length)
              shoulders (hand_size self * 0.4) ''arm'';
          forearm_length = max (arm_length - hand_size self / 2) (arm_length * 0.8);
          (forearms, armature) =
            x_mirror_bones_add armature ''forearm'' (tail (bone armature (fst arms)))
              (x_add (tail (bone armature (fst arms))) forearm_length)
              arms (hand_size self * 0.4) ''arm'';
          (hands, armature) =
            x_mirror_bones_add armature ''hand'' (tail (bone armature (fst forearms)))
              (x_add (tail (bone armature (fst forearms))) (hand_size self / 2))
              forearms (hand_size self / 4) ''arm'';
          finger_y_offset = - hand_size self / 16;
          (thumbs, armature) =
            fingers self armature hands ''finger_thumbs''
              (y_add (head (bone armature (fst hands))) (finger_y_offset * 3))
              (hand_size self / 2);
          armature = thumb_correction armature thumbs;
          (index_fingers, armature) =
            fingers self armature hands ''finger_index''
              (y_add (tail (bone armature (fst hands))) (finger_y_offset * 3))
              ((hand_size self / 2) - (1 / 2.3125) * (hand_size self / 2) / 3);
          (middle_fingers, armature) =
            fingers self armature hands ''finger_middle''
              (y_add (tail (bone armature (fst hands))) finger_y_offset)
              (hand_size self / 2);
          (ring_fingers, armature) =
            fingers self armature hands ''finger_ring''
              (y_add (tail (bone armature (fst hands))) (- finger_y_offset))
              ((hand_size self / 2) - (1 / 2.3125) * (hand_size self / 2) / 3);
          (little_fingers, armature) =
            fingers self armature hands ''finger_little''
              (y_add (tail (bone armature (fst hands))) (- finger_y_offset * 3))
              (((hand_size self / 2) - (1 / 2.3125) * (hand_size self / 2) / 3)
               * ((1 / 2.3125) + (1 / 2.3125) * 0.75))
      in (armature,
          (hips, spine, chest, neck, head'),
          (eyes, upside_legs, lower_legs, foots, toes, shoulders, arms, forearms, hands),
          (thumbs, index_fingers, middle_fingers, ring_fingers, little_fingers)))"

subsection \<open>make\_armature: the name table (lines 415--459)\<close>

text \<open>
  The three dicts are built as lists of items in the order of the comprehensions; a dict
  is a map, and \<^verbatim>\<open>dict.update\<close> stores the items one after the other, a later item
  replacing an earlier one with the same key.
\<close>

definition dict_update :: "(string \<Rightarrow> string option) \<Rightarrow> (string \<times> string) list
   \<Rightarrow> (string \<Rightarrow> string option)" where
  "dict_update d items = foldl (\<lambda>m kv. m(fst kv \<mapsto> snd kv)) d items"

definition body_dict :: "rig \<Rightarrow> nat \<times> nat \<times> nat \<times> nat \<times> nat \<Rightarrow> (string \<times> string) list" where
  "body_dict armature center =
     (case center of (hips, spine, chest, neck, head') \<Rightarrow>
        [(''hips'', name (bone armature hips)),
         (''spine'', name (bone armature spine)),
         (''chest'', name (bone armature chest)),
         (''neck'', name (bone armature neck)),
         (''head'', name (bone armature head'))])"

definition left_right_body_dict ::
  "rig \<Rightarrow> (nat \<times> nat) \<times> (nat \<times> nat) \<times> (nat \<times> nat) \<times> (nat \<times> nat) \<times> (nat \<times> nat)
      \<times> (nat \<times> nat) \<times> (nat \<times> nat) \<times> (nat \<times> nat) \<times> (nat \<times> nat)
   \<Rightarrow> (string \<times> string) list" where
  "left_right_body_dict armature pairs =
     (case pairs of
        (eyes, upside_legs, lower_legs, foots, toes, shoulders, arms, forearms, hands) \<Rightarrow>
        concat (map (\<lambda>(bone_name, bones).
                  map (\<lambda>(lr, left_right).
                         (left_right @ bone_name, name (bone armature (pair_nth bones lr))))
                    (enumerate 0 [''left'', ''right'']))
          [(''Eye'', eyes),
           (''UpperLeg'', upside_legs),
           (''LowerLeg'', lower_legs),
           (''Foot'', foots),
           (''Toes'', toes),
           (''Shoulder'', shoulders),
           (''UpperArm'', arms),
           (''LowerArm'', forearms),
           (''Hand'', hands)]))"

definition fingers_dict ::
  "rig \<Rightarrow> finger \<times> finger \<times> finger \<times> finger \<times> finger \<Rightarrow> (string \<times> string) list" where
  "fingers_dict armature all_fingers =
     (case all_fingers of
        (thumbs, index_fingers, middle_fingers, ring_fingers, little_fingers) \<Rightarrow>
        concat (map (\<lambda>(finger_name, finger).
                  concat (map (\<lambda>(i, position).
                            map (\<lambda>(lr, left_right).
                                   (left_right @ finger_name @ position,
                                    name (bone armature (pair_nth (triple_nth finger i) lr))))
                              (enumerate 0 [''left'', ''right'']))
                    (enumerate 0 [''Proximal'', ''Intermediate'', ''Distal''])))
          (zip [''Thumb'', ''Index'', ''Middle'', ''Ring'', ''Little'']
               [thumbs, index_fingers, middle_fingers, ring_fingers, little_fingers])))"

definition make_armature ::
  "ICYP_OT_MAKE_ARMATURE \<Rightarrow> rig \<times> (string \<Rightarrow> string option)" where
  "make_armature self =
     (case make_armature_bones self of (armature, center, pairs, all_fingers) \<Rightarrow>
        let bone_name_all_dict = Map.empty;
            bone_name_all_dict = dict_update bone_name_all_dict (body_dict armature center);
            bone_name_all_dict =
              dict_update bone_name_all_dict (left_right_body_dict armature pairs);
            bone_name_all_dict =
              dict_update bone_name_all_dict (fingers_dict armature all_fingers)
        in (armature, bone_name_all_dict))"

section \<open>normalize\_weights\_compatible\_with\_gl\_float (vrm\_types.py, lines 463--483)\<close>

text \<open>
  Numbers. A weight is a finite Python float, that is a binary64 number, modelled by the
  real number it denotes. Every operation of the source on floats is modelled with its
  rounding: \<^verbatim>\<open>+\<close>, \<^verbatim>\<open>-\<close> and \<^verbatim>\<open>/\<close> yield the binary64 number nearest to the exact
  result, ties going to the even significand, and \<^verbatim>\<open>struct.pack("<f", x)\<close> followed by
  \<^verbatim>\<open>struct.unpack\<close> yields the binary32 number nearest to \<open>x\<close>.

  A binary format is given by its precision \<open>p\<close> (the bits of a significand) and the
  exponent \<open>emin\<close> of its subnormal numbers: \<open>p = 24\<close> and \<open>emin = -126\<close> for binary32,
  \<open>p = 53\<close> and \<open>emin = -1022\<close> for binary64. A number of the format near \<open>x\<close> is an
  integer multiple of \<open>binary_ulp p emin x\<close>, which is \<open>2\<close> to the power \<open>e - (p - 1)\<close>
  (\<open>pow2 (e - (p - 1))\<close>) for the exponent \<open>e\<close> of \<open>x\<close>, not below \<open>emin\<close>.
\<close>

definition round_half_even :: "real \<Rightarrow> int" where
  "round_half_even y =
     (let f = \<lfloor>y\<rfloor>; d = y - of_int f
      in if d < 1 / 2 then f else if 1 / 2 < d then f + 1 else if even f then f else f + 1)"

definition pow2 :: "int \<Rightarrow> real" where
  "pow2 e = (if 0 \<le> e then 2 ^ nat e else 1 / 2 ^ nat (- e))"

definition binary_exponent :: "int \<Rightarrow> real \<Rightarrow> int" where
  "binary_exponent emin x = max \<lfloor>log 2 \<bar>x\<bar>\<rfloor> emin"

definition binary_ulp :: "nat \<Rightarrow> int \<Rightarrow> real \<Rightarrow> real" where
  "binary_ulp p emin x = pow2 (binary_exponent emin x - (int p - 1))"

definition binary_round :: "nat \<Rightarrow> int \<Rightarrow> real \<Rightarrow> real" where
  "binary_round p emin x =
     (if x = 0 then 0
      else sgn x * (of_int (round_half_even (\<bar>x\<bar> / binary_ulp p emin x))
                    * binary_ulp p emin x))"

definition float32_round :: "real \<Rightarrow> real" where
  "float32_round x = binary_round 24 (- 126) x"

definition float32_max :: real where
  "float32_max = (2 ^ 24 - 1) * 2 ^ 104"

definition float64_round :: "real \<Rightarrow> real" where
  "float64_round x = binary_round 53 (- 1022) x"

definition float64_max :: real where
  "float64_max = (2 ^ 53 - 1) * 2 ^ 971"

text \<open>
  The float that an operation with the exact result \<open>x\<close> yields: the nearest binary64
  number, or \<open>None\<close> when that is beyond the largest binary64 number (the operation then
  yields an infinity; \<^verbatim>\<open>+\<close>, \<^verbatim>\<open>-\<close> and \<^verbatim>\<open>/\<close> on floats raise nothing for it).
\<close>

definition float64 :: "real \<Rightarrow> real option" where
  "float64 x = (if float64_max < \<bar>float64_round x\<bar> then None else Some (float64_round x))"

text \<open>
  \<^verbatim>\<open>sum(weights)\<close>: the additions from left to right, starting from 0, each one rounded
  (the summation of floats in CPython before version 3.12). An infinite partial sum
  stays infinite whatever finite numbers follow, so the result is \<open>None\<close> then.
\<close>

fun py_sum_from :: "real \<Rightarrow> real list \<Rightarrow> real option" where
  "py_sum_from acc [] = Some acc"
| "py_sum_from acc (x # xs) =
     (case float64 (acc + x) of None \<Rightarrow> None | Some acc' \<Rightarrow> py_sum_from acc' xs)"

definition py_sum :: "real list \<Rightarrow> real option" where
  "py_sum xs = py_sum_from 0 xs"

text \<open>
  \<^verbatim>\<open>math.fsum(weights)\<close>: the exact sum, rounded once. It is modelled for the lists whose
  magnitudes add up to a binary64 number, where no partial sum can overflow; for the
  others (\<open>None\<close>) the result depends on the order in which \<^verbatim>\<open>fsum\<close> meets an
  overflow.
\<close>

definition math_fsum :: "real list \<Rightarrow> real option" where
  "math_fsum xs =
     (if float64_max < sum_list (map abs xs) then None
      else Some (float64_round (sum_list xs)))"

text \<open>
  \<^verbatim>\<open>struct.pack("<f", x)\<close> and back: OverflowError when the binary32 number nearest to \<open>x\<close>
  is beyond the largest one.
\<close>

definition pack_f :: "real \<Rightarrow> py_error + real" where
  "pack_f x =
     (if float32_max < \<bar>float32_round x\<bar> then Inl OverflowError else Inr (float32_round x))"

fun pack_all :: "real list \<Rightarrow> py_error + real list" where
  "pack_all [] = Inr []"
| "pack_all (x # xs) =
     (case pack_f x of
        Inl e \<Rightarrow> Inl e
      | Inr y \<Rightarrow> (case pack_all xs of Inl e \<Rightarrow> Inl e | Inr ys \<Rightarrow> Inr (y # ys)))"

text \<open>
  \<^verbatim>\<open>to_gl_float\<close>: the format \<^verbatim>\<open>"<ffff"\<close> takes exactly four numbers
  (\<^verbatim>\<open>struct.error\<close> otherwise).
\<close>

definition to_gl_float :: "real list \<Rightarrow> py_error + real list" where
  "to_gl_float array4 = (if length array4 \<noteq> 4 then Inl StructError else pack_all array4)"

text \<open>\<^verbatim>\<open>sys.float_info.epsilon\<close>\<close>

definition float_epsilon :: real where
  "float_epsilon = 1 / 2 ^ 52"

text \<open>
  The first test, \<^verbatim>\<open>abs(sum(weights) - 1.0) < float_info.epsilon\<close>; it is false when the
  sum is infinite.
\<close>

definition sum_is_one :: "real list \<Rightarrow> bool" where
  "sum_is_one weights =
     (case py_sum weights of
        None \<Rightarrow> False
      | Some s \<Rightarrow> (case float64 (s - 1) of None \<Rightarrow> False | Some d \<Rightarrow> \<bar>d\<bar> < float_epsilon))"

text \<open>
  The outcome of the loop: a value, an exception, or \<open>Not_modelled\<close> where an operation
  inside the loop would leave the finite floats (an infinite sum or quotient, or an
  \<^verbatim>\<open>fsum\<close> that may overflow). The loop runs on the four binary32 numbers that
  \<^verbatim>\<open>to_gl_float\<close> returns, and on these no operation does: the function never has the
  outcome \<open>Not_modelled\<close> (lemma \<open>normalize_modelled\<close>).
\<close>

datatype 'a outcome = Returns 'a | Raises py_error | Not_modelled

text \<open>The error measure \<^verbatim>\<open>abs(1 - math.fsum(weights))\<close>.\<close>

definition sum_error :: "real list \<Rightarrow> real option" where
  "sum_error weights =
     (case math_fsum weights of
        None \<Rightarrow> None
      | Some f \<Rightarrow> (case float64 (1 - f) of None \<Rightarrow> None | Some d \<Rightarrow> Some \<bar>d\<bar>))"

text \<open>
  The candidate of one iteration:
  \<^verbatim>\<open>to_gl_float([weights[i] / sum(weights) for i in range(4)])\<close>. \<^verbatim>\<open>weights[i]\<close> raises
  IndexError beyond the end of the list, and the division raises ZeroDivisionError
  when the sum is zero.
\<close>

definition next_weights :: "real list \<Rightarrow> real list outcome" where
  "next_weights weights =
     (if weights = [] then Raises IndexError
      else case py_sum weights of
             None \<Rightarrow> Not_modelled
           | Some s \<Rightarrow>
               if s = 0 then Raises ZeroDivisionError
               else if length weights < 4 then Raises IndexError
               else case those (map (\<lambda>i. float64 (weights ! i / s)) [0, 1, 2, 3]) of
                      None \<Rightarrow> Not_modelled
                    | Some quotients \<Rightarrow>
                        (case to_gl_float quotients of
                           Inl e \<Rightarrow> Raises e
                         | Inr next_w \<Rightarrow> Returns next_w))"

text \<open>The \<^verbatim>\<open>for\<close> loop with \<open>n\<close> iterations left.\<close>

fun refine :: "nat \<Rightarrow> real list \<Rightarrow> real list outcome" where
  "refine 0 weights = Returns weights"
| "refine (Suc n) weights =
     (case next_weights weights of
        Raises e \<Rightarrow> Raises e
      | Not_modelled \<Rightarrow> Not_modelled
      | Returns next_w \<Rightarrow>
          (case sum_error weights of
             None \<Rightarrow> Not_modelled
           | Some error \<Rightarrow>
               (case sum_error next_w of
                  None \<Rightarrow> Not_modelled
                | Some next_error \<Rightarrow>
                    if float_epsilon \<le> error \<and> next_error < error then refine n next_w
                    else Returns weights)))"

text \<open>
  The function with the number of iterations as a parameter; the source has the
  constant 10.
\<close>

definition normalize_with_budget :: "nat \<Rightarrow> real list \<Rightarrow> real list outcome" where
  "normalize_with_budget n weights =
     (if sum_is_one weights then Returns weights
      else case to_gl_float weights of
             Inl e \<Rightarrow> Raises e
           | Inr w \<Rightarrow> refine n w)"

definition normalize_weights_compatible_with_gl_float :: "real list \<Rightarrow> real list outcome" where
  "normalize_weights_compatible_with_gl_float weights = normalize_with_budget 10 weights"

section \<open>Theorems\<close>

subsection \<open>nested\_json\_value\_getter\<close>

lemma make_json_return_value_id: "make_json_return_value v = v"
  by (cases v) simp_all

text \<open>
  With an empty path the first statement after the \<^verbatim>\<open>None\<close> test is
  \<^verbatim>\<open>attrs.pop(0)\<close>: the call raises IndexError unless \<open>json\<close> is \<^verbatim>\<open>None\<close>, for which
  the default is returned before the pop.
\<close>

lemma getter_empty_path:
  "nested_json_value_getter json [] dflt = (if json = JNone then Inr dflt else Inl IndexError)"
  by (cases json) simp_all

text \<open>
  Claim C10. For every JSON value and every non-empty attribute path the getter returns
  (it is a total function, and its result is never an error): the default when some step
  of the path does not match (the value reached is \<^verbatim>\<open>None\<close>, an index is out of range,
  a key is absent, or the kind of the attribute does not fit the container), and the
  value found at the end of the path otherwise.
\<close>

theorem nested_json_value_getter_returns:
  "attrs \<noteq> [] \<Longrightarrow>
   nested_json_value_getter json attrs dflt =
     Inr (case value_at_path json attrs of None \<Rightarrow> dflt | Some v \<Rightarrow> v)"
proof (induction json attrs dflt rule: nested_json_value_getter.induct)
  case (1 attrs dflt)
  then show ?case by (cases attrs) simp_all
next
  case (3 xs i attrs dflt)
  then show ?case by (cases attrs) (simp_all add: make_json_return_value_id)
next
  case (4 kvs k attrs dflt)
  then show ?case
    by (cases "map_of kvs k"; cases attrs; simp add: make_json_return_value_id)
qed simp_all

theorem nested_json_value_getter_returns_witness:
  "[AStr ''extensions'', AStr ''VRM'', AInt 1] \<noteq> []
   \<and> nested_json_value_getter
        (JDict [(''extensions'', JDict [(''VRM'', JList [JInt 7, JStr ''x''])])])
        [AStr ''extensions'', AStr ''VRM'', AInt 1] JNone = Inr (JStr ''x'')
   \<and> nested_json_value_getter
        (JDict [(''extensions'', JDict [(''VRM'', JList [JInt 7, JStr ''x''])])])
        [AStr ''extensions'', AStr ''VRM'', AInt 2] (JInt 0) = Inr (JInt 0)"
  using nested_json_value_getter_returns
          [of "[AStr ''extensions'', AStr ''VRM'', AInt 1]"
              "JDict [(''extensions'', JDict [(''VRM'', JList [JInt 7, JStr ''x''])])]" JNone]
        nested_json_value_getter_returns
          [of "[AStr ''extensions'', AStr ''VRM'', AInt 2]"
              "JDict [(''extensions'', JDict [(''VRM'', JList [JInt 7, JStr ''x''])])]" "JInt 0"]
  by simp

subsection \<open>The HumanBones hierarchy\<close>

lemmas HumanBones_names_defs =
  HumanBones_requires_def HumanBones_defines_def
  HumanBones_center_req_def HumanBones_left_leg_req_def HumanBones_right_leg_req_def
  HumanBones_left_arm_req_def HumanBones_right_arm_req_def HumanBones_center_def_def
  HumanBones_left_leg_def_def HumanBones_right_leg_def_def HumanBones_left_arm_def_def
  HumanBones_right_arm_def_def

lemma hierarchy_keys_distinct: "distinct (map fst HumanBones_hierarchy)"
  unfolding HumanBones_hierarchy_def by simp

lemma hierarchy_length: "length HumanBones_hierarchy = 54"
  unfolding HumanBones_hierarchy_def by simp

lemma hierarchy_hips: "parent_of ''hips'' = None"
  unfolding parent_of_def HumanBones_hierarchy_def by simp

text \<open>Every entry of the table is what a lookup of its key returns: no key is shadowed.\<close>

lemma hierarchy_entries:
  "list_all (\<lambda>kv. parent_of (fst kv) = Some (snd kv)) HumanBones_hierarchy"
  using hierarchy_keys_distinct by (simp add: list_all_iff parent_of_def)

lemmas hierarchy_parents =
  hierarchy_entries [unfolded HumanBones_hierarchy_def list.pred_inject fst_conv snd_conv]

lemma filter_key_distinct:
  "distinct (map fst xs) \<Longrightarrow> map_of xs n \<noteq> None \<Longrightarrow>
   length (filter (\<lambda>kv. fst kv = n) xs) = 1"
proof (induction xs)
  case Nil
  then show ?case by simp
next
  case (Cons x xs)
  show ?case
  proof (cases "fst x = n")
    case True
    with Cons.prems have "n \<notin> fst ` set xs" by auto
    then have "filter (\<lambda>kv. fst kv = n) xs = []"
      by (auto simp: filter_empty_conv)
    with True show ?thesis by simp
  next
    case False
    with Cons show ?thesis by (cases x) auto
  qed
qed

lemma key_count_one: "parent_of n \<noteq> None \<Longrightarrow> key_count n = 1"
  unfolding key_count_def parent_of_def
  using hierarchy_keys_distinct by (rule filter_key_distinct)

lemma key_count_none: "parent_of n = None \<Longrightarrow> key_count n = 0"
  unfolding key_count_def parent_of_def
  by (auto simp: map_of_eq_None_iff filter_empty_conv)

lemma parent_chain_numeral:
  "parent_chain (numeral k) n =
     (if n = ''hips'' then Some [n]
      else case parent_of n of
             None \<Rightarrow> None
           | Some p \<Rightarrow> map_option ((#) n) (parent_chain (pred_numeral k) p))"
  by (simp add: numeral_eq_Suc)

text \<open>
  Claim C6. The hierarchy table is a tree rooted at \<open>''hips''\<close> on the names of
  \<open>requires\<close> and \<open>defines\<close>: \<open>''hips''\<close> is not a key of the table, every other
  name of the two lists is a key exactly once, and the parent links followed from it end
  at \<open>''hips''\<close> after finitely many steps without meeting a name twice.
\<close>

theorem HumanBones_hierarchy_tree:
  "parent_of ''hips'' = None \<and> key_count ''hips'' = 0 \<and>
   (\<forall>n \<in> set (HumanBones_requires @ HumanBones_defines).
      n \<noteq> ''hips'' \<longrightarrow> key_count n = 1 \<and> rooted_at_hips n)"
proof (intro conjI)
  show "parent_of ''hips'' = None" by (rule hierarchy_hips)
  then show "key_count ''hips'' = 0" by (rule key_count_none)
  show "\<forall>n \<in> set (HumanBones_requires @ HumanBones_defines).
      n \<noteq> ''hips'' \<longrightarrow> key_count n = 1 \<and> rooted_at_hips n"
    unfolding HumanBones_names_defs
    by (simp add: key_count_one rooted_at_hips_def hierarchy_length parent_chain_numeral
        hierarchy_parents)
qed

theorem HumanBones_hierarchy_tree_witness:
  "''leftIndexDistal'' \<in> set (HumanBones_requires @ HumanBones_defines)
   \<and> ''leftIndexDistal'' \<noteq> ''hips''
   \<and> key_count ''leftIndexDistal'' = 1
   \<and> rooted_at_hips ''leftIndexDistal''"
  using HumanBones_hierarchy_tree by (simp add: HumanBones_names_defs)

subsection \<open>Adding bones\<close>

lemma distance_mirror_x: "distance (mirror_x p) (mirror_x q) = distance p q"
  by (cases p; cases q) (simp add: distance_def mirror_x_def power2_eq_square algebra_simps)

lemma distance_x_add: "distance p (x_add p a) = \<bar>a\<bar>"
  by (cases p) (simp add: distance_def x_add_def)

lemma bone_add_result:
  "bone_add armature n h t p radius rolld =
     (length (edit_bones armature),
      armature\<lparr>edit_bones := edit_bones armature @
          [\<lparr>name = n, head = h, tail = t, head_radius = radius, tail_radius = radius,
            envelope_distance = 0.01, roll = radians rolld, parent = p\<rparr>],
        bone_dic := (bone_dic armature)(n \<mapsto> length (edit_bones armature))\<rparr>)"
  by (simp add: bone_add_def Let_def)

lemma x_mirror_bones_add_result:
  "x_mirror_bones_add armature base_name h t parent_bones radius bone_type =
     ((length (edit_bones armature), Suc (length (edit_bones armature))),
      armature\<lparr>edit_bones := edit_bones armature @
          [\<lparr>name = base_name @ ''_L'', head = h, tail = t, head_radius = radius,
            tail_radius = radius, envelope_distance = 0.01,
            roll = radians (if bone_type = ''arm'' then 0
                            else if bone_type = ''leg'' then 90 else 0),
            parent = Some (fst parent_bones)\<rparr>,
           \<lparr>name = base_name @ ''_R'', head = mirror_x h, tail = mirror_x t,
            head_radius = radius, tail_radius = radius, envelope_distance = 0.01,
            roll = radians (if bone_type = ''arm'' then 180
                            else if bone_type = ''leg'' then 90 else 0),
            parent = Some (snd parent_bones)\<rparr>],
        bone_dic := (bone_dic armature)
          (base_name @ ''_L'' \<mapsto> length (edit_bones armature),
           base_name @ ''_R'' \<mapsto> Suc (length (edit_bones armature)))\<rparr>)"
  by (simp add: x_mirror_bones_add_def bone_add_result Let_def)

text \<open>
  Claim C8, as the code has it. \<^verbatim>\<open>bone_add\<close> has no failure: for every name, also one
  that \<^verbatim>\<open>bone_dic\<close> already holds, it appends one bone with the given head, tail and
  parent, returns it, and binds the name to it in \<^verbatim>\<open>bone_dic\<close>, replacing an earlier
  binding of that name. Being a dict, \<^verbatim>\<open>bone_dic\<close> holds each name once.
\<close>

theorem bone_add_never_fails:
  "case bone_add armature bone_name head_pos tail_pos parent_bone radius roll_degrees of
     (added_bone, armature') \<Rightarrow>
       added_bone = length (edit_bones armature) \<and>
       edit_bones armature' = edit_bones armature @ [bone armature' added_bone] \<and>
       head (bone armature' added_bone) = head_pos \<and>
       tail (bone armature' added_bone) = tail_pos \<and>
       parent (bone armature' added_bone) = parent_bone \<and>
       bone_dic armature' = (bone_dic armature)(bone_name \<mapsto> added_bone)"
  by (simp add: bone_add_result bone_def)

text \<open>
  The claim as stated asks for a DuplicateNameError on a name that exists. On the fresh
  armature, adding \<^verbatim>\<open>"root"\<close> twice with the arguments of line 177 succeeds both times:
  the second call returns a second bone (index 1) and rebinds the name to it.
\<close>

theorem bone_add_duplicate_counterexample:
  "bone_dic (snd (bone_add empty_rig ''root'' (0, 0, 0) (0, 0, 0.3) None 0.1 0)) ''root''
     = Some 0
   \<and> fst (bone_add (snd (bone_add empty_rig ''root'' (0, 0, 0) (0, 0, 0.3) None 0.1 0))
            ''root'' (0, 0, 0) (0, 0, 0.3) None 0.1 0) = 1
   \<and> length (edit_bones
        (snd (bone_add (snd (bone_add empty_rig ''root'' (0, 0, 0) (0, 0, 0.3) None 0.1 0))
            ''root'' (0, 0, 0) (0, 0, 0.3) None 0.1 0))) = 2
   \<and> bone_dic
        (snd (bone_add (snd (bone_add empty_rig ''root'' (0, 0, 0) (0, 0, 0.3) None 0.1 0))
            ''root'' (0, 0, 0) (0, 0, 0.3) None 0.1 0)) ''root'' = Some 1"
  by (simp add: bone_add_result empty_rig_def)

text \<open>
  Claim C2. Every call of \<^verbatim>\<open>x_mirror_bones_add\<close> appends exactly two bones, the left one
  first: the left bone has the given (unmirrored) head and tail and the name
  \<open>base_name @ ''_L''\<close>, the right bone has head and tail with the x coordinate negated
  and the name \<open>base_name @ ''_R''\<close>, both are bound under their names in
  \<^verbatim>\<open>bone_dic\<close>, and the two bones have the same length.
\<close>

theorem x_mirror_bones_add_pair:
  "case x_mirror_bones_add armature base_name (hx, hy, hz) (tx, ty, tz) parent_bones radius
          bone_type of
     ((left_bone, right_bone), armature') \<Rightarrow>
       left_bone = length (edit_bones armature) \<and> right_bone = Suc left_bone \<and>
       edit_bones armature' =
         edit_bones armature @ [bone armature' left_bone, bone armature' right_bone] \<and>
       name (bone armature' left_bone) = base_name @ ''_L'' \<and>
       head (bone armature' left_bone) = (hx, hy, hz) \<and>
       tail (bone armature' left_bone) = (tx, ty, tz) \<and>
       name (bone armature' right_bone) = base_name @ ''_R'' \<and>
       head (bone armature' right_bone) = (- hx, hy, hz) \<and>
       tail (bone armature' right_bone) = (- tx, ty, tz) \<and>
       bone_dic armature' (base_name @ ''_L'') = Some left_bone \<and>
       bone_dic armature' (base_name @ ''_R'') = Some right_bone \<and>
       bone_length (bone armature' left_bone) = bone_length (bone armature' right_bone)"
  by (simp add: x_mirror_bones_add_def bone_add_result bone_def nth_append mirror_x_def
      bone_length_def distance_def power2_commute)

subsection \<open>Finger chains\<close>

lemma finger_normalize_pos:
  "0 < finger_1_2_ratio self \<Longrightarrow> 0 < finger_2_3_ratio self \<Longrightarrow>
   0 < finger_1_2_ratio self * finger_2_3_ratio self + finger_1_2_ratio self + 1"
  by (simp add: add_pos_pos)

lemma finger_len_sum:
  assumes "0 < finger_1_2_ratio self" "0 < finger_2_3_ratio self"
  shows "proximal_finger_len self s + intermediate_finger_len self s
           + distal_finger_len self s = s"
proof -
  let ?d = "finger_1_2_ratio self * finger_2_3_ratio self + finger_1_2_ratio self + 1"
  have "?d \<noteq> 0" using finger_normalize_pos [OF assms] by simp
  then have one: "finger_normalize self * ?d = 1"
    by (simp add: finger_normalize_def)
  have "proximal_finger_len self s + intermediate_finger_len self s
           + distal_finger_len self s = s * (finger_normalize self * ?d)"
    unfolding proximal_finger_len_def intermediate_finger_len_def distal_finger_len_def
    by (simp add: algebra_simps)
  with one show ?thesis by simp
qed

lemma finger_len_ratios:
  shows "distal_finger_len self s = finger_2_3_ratio self * intermediate_finger_len self s"
    and "intermediate_finger_len self s = finger_1_2_ratio self * proximal_finger_len self s"
  by (simp_all add: distal_finger_len_def intermediate_finger_len_def proximal_finger_len_def)

lemma finger_len_quotients:
  assumes "0 < finger_1_2_ratio self" "0 < finger_2_3_ratio self" "s \<noteq> 0"
  shows "distal_finger_len self s / intermediate_finger_len self s = finger_2_3_ratio self"
    and "intermediate_finger_len self s / proximal_finger_len self s = finger_1_2_ratio self"
proof -
  have d: "finger_normalize self \<noteq> 0"
    using finger_normalize_pos [OF assms(1,2)] by (simp add: finger_normalize_def)
  from d assms
  show "distal_finger_len self s / intermediate_finger_len self s = finger_2_3_ratio self"
    by (simp add: distal_finger_len_def intermediate_finger_len_def)
  from d assms
  show "intermediate_finger_len self s / proximal_finger_len self s = finger_1_2_ratio self"
    by (simp add: proximal_finger_len_def intermediate_finger_len_def)
qed

lemma xm_fst:
  "fst (x_mirror_bones_add a nm h t ps rad ty)
     = (length (edit_bones a), Suc (length (edit_bones a)))"
  by (simp add: x_mirror_bones_add_result)

lemma xm_length:
  "length (edit_bones (snd (x_mirror_bones_add a nm h t ps rad ty)))
     = Suc (Suc (length (edit_bones a)))"
  by (simp add: x_mirror_bones_add_result)

lemma xm_bone_old:
  "i < length (edit_bones a) \<Longrightarrow> bone (snd (x_mirror_bones_add a nm h t ps rad ty)) i = bone a i"
  by (simp add: x_mirror_bones_add_result bone_def nth_append)

lemma xm_bone_left:
  "i = length (edit_bones a) \<Longrightarrow>
   head (bone (snd (x_mirror_bones_add a nm h t ps rad ty)) i) = h \<and>
   tail (bone (snd (x_mirror_bones_add a nm h t ps rad ty)) i) = t \<and>
   name (bone (snd (x_mirror_bones_add a nm h t ps rad ty)) i) = nm @ ''_L''"
  by (simp add: x_mirror_bones_add_result bone_def nth_append)

lemma xm_bone_right:
  "i = Suc (length (edit_bones a)) \<Longrightarrow>
   head (bone (snd (x_mirror_bones_add a nm h t ps rad ty)) i) = mirror_x h \<and>
   tail (bone (snd (x_mirror_bones_add a nm h t ps rad ty)) i) = mirror_x t \<and>
   name (bone (snd (x_mirror_bones_add a nm h t ps rad ty)) i) = nm @ ''_R''"
  by (simp add: x_mirror_bones_add_result bone_def nth_append)

lemma fingers_bone_lengths:
  "case fingers self armature hands finger_name proximal_pos s of
     ((proximal_bones, intermediate_bones, distal_bones), armature') \<Rightarrow>
       bone_length (bone armature' (fst proximal_bones)) = \<bar>proximal_finger_len self s\<bar> \<and>
       bone_length (bone armature' (snd proximal_bones)) = \<bar>proximal_finger_len self s\<bar> \<and>
       bone_length (bone armature' (fst intermediate_bones))
         = \<bar>intermediate_finger_len self s\<bar> \<and>
       bone_length (bone armature' (snd intermediate_bones))
         = \<bar>intermediate_finger_len self s\<bar> \<and>
       bone_length (bone armature' (fst distal_bones)) = \<bar>distal_finger_len self s\<bar> \<and>
       bone_length (bone armature' (snd distal_bones)) = \<bar>distal_finger_len self s\<bar>"
  by (simp add: fingers_def split_beta Let_def bone_length_def xm_fst xm_length xm_bone_old
      xm_bone_left xm_bone_right distance_mirror_x distance_x_add)

text \<open>
  Claim C1. For ratios in \<open>(0, 1]\<close> and any total length the three segment lengths add up
  to the total length; the distal length is \<open>finger_2_3_ratio\<close> times the intermediate
  length and the intermediate length is \<open>finger_1_2_ratio\<close> times the proximal length, so
  that the quotient of the distal by the intermediate length is \<open>finger_2_3_ratio\<close> and
  that of the intermediate by the proximal length is \<open>finger_1_2_ratio\<close> wherever the
  lengths are not zero (the total length is not zero); and the six bones that
  \<^verbatim>\<open>fingers\<close> builds for the three segments have these lengths (in absolute value).
\<close>

theorem finger_segment_lengths:
  assumes "0 < finger_1_2_ratio self" and "finger_1_2_ratio self \<le> 1"
    and "0 < finger_2_3_ratio self" and "finger_2_3_ratio self \<le> 1"
  shows "proximal_finger_len self s + intermediate_finger_len self s
           + distal_finger_len self s = s
    \<and> distal_finger_len self s = finger_2_3_ratio self * intermediate_finger_len self s
    \<and> intermediate_finger_len self s = finger_1_2_ratio self * proximal_finger_len self s
    \<and> (s \<noteq> 0 \<longrightarrow>
         distal_finger_len self s / intermediate_finger_len self s = finger_2_3_ratio self
         \<and> intermediate_finger_len self s / proximal_finger_len self s
           = finger_1_2_ratio self)
    \<and> (case fingers self armature hands finger_name proximal_pos s of
          ((proximal_bones, intermediate_bones, distal_bones), armature') \<Rightarrow>
            bone_length (bone armature' (fst proximal_bones))
              = \<bar>proximal_finger_len self s\<bar> \<and>
            bone_length (bone armature' (snd proximal_bones))
              = \<bar>proximal_finger_len self s\<bar> \<and>
            bone_length (bone armature' (fst intermediate_bones))
              = \<bar>intermediate_finger_len self s\<bar> \<and>
            bone_length (bone armature' (snd intermediate_bones))
              = \<bar>intermediate_finger_len self s\<bar> \<and>
            bone_length (bone armature' (fst distal_bones))
              = \<bar>distal_finger_len self s\<bar> \<and>
            bone_length (bone armature' (snd distal_bones))
              = \<bar>distal_finger_len self s\<bar>)"
proof (intro conjI impI)
  show "proximal_finger_len self s + intermediate_finger_len self s
          + distal_finger_len self s = s"
    by (rule finger_len_sum [OF assms(1,3)])
  show "distal_finger_len self s = finger_2_3_ratio self * intermediate_finger_len self s"
    by (rule finger_len_ratios(1))
  show "intermediate_finger_len self s = finger_1_2_ratio self * proximal_finger_len self s"
    by (rule finger_len_ratios(2))
  show "distal_finger_len self s / intermediate_finger_len self s = finger_2_3_ratio self"
    if "s \<noteq> 0" using that by (rule finger_len_quotients(1) [OF assms(1,3)])
  show "intermediate_finger_len self s / proximal_finger_len self s = finger_1_2_ratio self"
    if "s \<noteq> 0" using that by (rule finger_len_quotients(2) [OF assms(1,3)])
  show "case fingers self armature hands finger_name proximal_pos s of
          ((proximal_bones, intermediate_bones, distal_bones), armature') \<Rightarrow>
            bone_length (bone armature' (fst proximal_bones))
              = \<bar>proximal_finger_len self s\<bar> \<and>
            bone_length (bone armature' (snd proximal_bones))
              = \<bar>proximal_finger_len self s\<bar> \<and>
            bone_length (bone armature' (fst intermediate_bones))
              = \<bar>intermediate_finger_len self s\<bar> \<and>
            bone_length (bone armature' (snd intermediate_bones))
              = \<bar>intermediate_finger_len self s\<bar> \<and>
            bone_length (bone armature' (fst distal_bones))
              = \<bar>distal_finger_len self s\<bar> \<and>
            bone_length (bone armature' (snd distal_bones))
              = \<bar>distal_finger_len self s\<bar>"
    by (rule fingers_bone_lengths)
qed

theorem finger_segment_lengths_witness:
  "0 < finger_1_2_ratio operator_defaults \<and> finger_1_2_ratio operator_defaults \<le> 1
   \<and> 0 < finger_2_3_ratio operator_defaults \<and> finger_2_3_ratio operator_defaults \<le> 1
   \<and> proximal_finger_len operator_defaults (1 / 10)
       + intermediate_finger_len operator_defaults (1 / 10)
       + distal_finger_len operator_defaults (1 / 10) = 1 / 10
   \<and> distal_finger_len operator_defaults (1 / 10)
       / intermediate_finger_len operator_defaults (1 / 10) = 3 / 4
   \<and> intermediate_finger_len operator_defaults (1 / 10)
       / proximal_finger_len operator_defaults (1 / 10) = 3 / 4"
  using finger_segment_lengths [of operator_defaults "1 / 10" empty_rig "(0, 0)"
      "''finger_index''" "(0, 0, 0)"]
  by (simp add: operator_defaults_def)

subsection \<open>The thumb correction\<close>

lemma rotation_preserves_norm:
  fixes a b c s :: real
  assumes "s\<^sup>2 + c\<^sup>2 = 1"
  shows "(c * a - s * b)\<^sup>2 + (s * a + c * b)\<^sup>2 = a\<^sup>2 + b\<^sup>2"
proof -
  have "(c * a - s * b)\<^sup>2 + (s * a + c * b)\<^sup>2 = (s\<^sup>2 + c\<^sup>2) * (a\<^sup>2 + b\<^sup>2)"
    by (simp add: power2_eq_square algebra_simps)
  with assms show ?thesis by simp
qed

lemma distance_matrix_apply:
  "distance (matrix_apply m p) (matrix_apply m q) = distance p q"
proof (cases m)
  case (Translation v)
  then show ?thesis
    by (cases v; cases p; cases q) (simp add: distance_def)
next
  case (Rotation_Z angle)
  obtain px py pz qx qy qz where pq: "p = (px, py, pz)" "q = (qx, qy, qz)"
    by (cases p; cases q) auto
  have "(cos angle * qx - sin angle * qy - (cos angle * px - sin angle * py))\<^sup>2
        + (sin angle * qx + cos angle * qy - (sin angle * px + cos angle * py))\<^sup>2
      = (cos angle * (qx - px) - sin angle * (qy - py))\<^sup>2
        + (sin angle * (qx - px) + cos angle * (qy - py))\<^sup>2"
    by (simp add: algebra_simps)
  also have "\<dots> = (qx - px)\<^sup>2 + (qy - py)\<^sup>2"
    by (rule rotation_preserves_norm) simp
  finally show ?thesis
    using Rotation_Z pq by (simp add: distance_def)
qed

lemma bone_length_transform:
  "bone_length (bone (transform armature b m) i) = bone_length (bone armature i)"
proof (cases "b < length (edit_bones armature)")
  case True
  then show ?thesis
    by (cases "i = b")
      (simp_all add: transform_def bone_def bone_length_def distance_matrix_apply)
next
  case False
  then show ?thesis
    by (simp add: transform_def bone_def list_update_beyond)
qed

lemma bone_length_set_roll:
  "bone_length (bone (set_roll armature b r) i) = bone_length (bone armature i)"
proof (cases "b < length (edit_bones armature)")
  case True
  then show ?thesis
    by (cases "i = b") (simp_all add: set_roll_def bone_def bone_length_def)
next
  case False
  then show ?thesis
    by (simp add: set_roll_def bone_def list_update_beyond)
qed

lemma bone_length_thumb_rotate:
  "bone_length (bone (thumb_rotate mats thumbs j armature n_angle) i)
     = bone_length (bone armature i)"
  by (cases n_angle)
    (simp add: thumb_rotate_def Let_def bone_length_set_roll bone_length_transform)

lemma bone_length_foldl:
  assumes "\<And>a x. bone_length (bone (f a x) i) = bone_length (bone a i)"
  shows "bone_length (bone (foldl f armature xs) i) = bone_length (bone armature i)"
  using assms by (induction xs arbitrary: armature) simp_all

text \<open>
  Claim C3. The correction of lines 386--393 (for each of the three thumb segments and
  each side: move the proximal origin of that side to the coordinate origin, rotate by
  -45 degrees (left) or +45 degrees (right) about the Z axis, move back, then set the
  roll to 0 or to 180 degrees) leaves the head-to-tail length of every bone of the
  armature, so of each of the six thumb segments, as it was before.
\<close>

theorem thumb_correction_preserves_length:
  "bone_length (bone (thumb_correction armature thumbs) b) = bone_length (bone armature b)"
  unfolding thumb_correction_def Let_def
  by (intro bone_length_foldl bone_length_thumb_rotate)

subsection \<open>The name table\<close>

lemma dom_dict_update: "dom (dict_update d items) = dom d \<union> fst ` set items"
  unfolding dict_update_def
  by (induction items arbitrary: d) auto

lemma body_dict_keys:
  "map fst (body_dict armature center) = [''hips'', ''spine'', ''chest'', ''neck'', ''head'']"
  by (simp add: body_dict_def split_beta)

lemma left_right_body_dict_keys:
  "map fst (left_right_body_dict armature pairs) =
     [''leftEye'', ''rightEye'', ''leftUpperLeg'', ''rightUpperLeg'',
      ''leftLowerLeg'', ''rightLowerLeg'', ''leftFoot'', ''rightFoot'',
      ''leftToes'', ''rightToes'', ''leftShoulder'', ''rightShoulder'',
      ''leftUpperArm'', ''rightUpperArm'', ''leftLowerArm'', ''rightLowerArm'',
      ''leftHand'', ''rightHand'']"
  by (simp add: left_right_body_dict_def split_beta)

lemma fingers_dict_keys:
  "map fst (fingers_dict armature all_fingers) =
     [''leftThumbProximal'', ''rightThumbProximal'',
      ''leftThumbIntermediate'', ''rightThumbIntermediate'',
      ''leftThumbDistal'', ''rightThumbDistal'',
      ''leftIndexProximal'', ''rightIndexProximal'',
      ''leftIndexIntermediate'', ''rightIndexIntermediate'',
      ''leftIndexDistal'', ''rightIndexDistal'',
      ''leftMiddleProximal'', ''rightMiddleProximal'',
      ''leftMiddleIntermediate'', ''rightMiddleIntermediate'',
      ''leftMiddleDistal'', ''rightMiddleDistal'',
      ''leftRingProximal'', ''rightRingProximal'',
      ''leftRingIntermediate'', ''rightRingIntermediate'',
      ''leftRingDistal'', ''rightRingDistal'',
      ''leftLittleProximal'', ''rightLittleProximal'',
      ''leftLittleIntermediate'', ''rightLittleIntermediate'',
      ''leftLittleDistal'', ''rightLittleDistal'']"
  by (simp add: fingers_dict_def split_beta)

lemma bone_name_all_dict_dom:
  "dom (snd (make_armature self)) =
     set ([''hips'', ''spine'', ''chest'', ''neck'', ''head''] @
      [''leftEye'', ''rightEye'', ''leftUpperLeg'', ''rightUpperLeg'',
      ''leftLowerLeg'', ''rightLowerLeg'', ''leftFoot'', ''rightFoot'',
      ''leftToes'', ''rightToes'', ''leftShoulder'', ''rightShoulder'',
      ''leftUpperArm'', ''rightUpperArm'', ''leftLowerArm'', ''rightLowerArm'',
      ''leftHand'', ''rightHand''] @
     [''leftThumbProximal'', ''rightThumbProximal'',
      ''leftThumbIntermediate'', ''rightThumbIntermediate'',
      ''leftThumbDistal'', ''rightThumbDistal'',
      ''leftIndexProximal'', ''rightIndexProximal'',
      ''leftIndexIntermediate'', ''rightIndexIntermediate'',
      ''leftIndexDistal'', ''rightIndexDistal'',
      ''leftMiddleProximal'', ''rightMiddleProximal'',
      ''leftMiddleIntermediate'', ''rightMiddleIntermediate'',
      ''leftMiddleDistal'', ''rightMiddleDistal'',
      ''leftRingProximal'', ''rightRingProximal'',
      ''leftRingIntermediate'', ''rightRingIntermediate'',
      ''leftRingDistal'', ''rightRingDistal'',
      ''leftLittleProximal'', ''rightLittleProximal'',
      ''leftLittleIntermediate'', ''rightLittleIntermediate'',
      ''leftLittleDistal'', ''rightLittleDistal''])"
proof -
  obtain armature center pairs all_fingers
    where b: "make_armature_bones self = (armature, center, pairs, all_fingers)"
    by (cases "make_armature_bones self") auto
  have "dom (snd (make_armature self)) =
      set (map fst (body_dict armature center)) \<union>
      set (map fst (left_right_body_dict armature pairs)) \<union>
      set (map fst (fingers_dict armature all_fingers))"
    by (simp add: make_armature_def b Let_def dom_dict_update)
  then show ?thesis
    by (simp only: body_dict_keys left_right_body_dict_keys fingers_dict_keys set_append Un_assoc)
qed

text \<open>
  Claim C7. For every operator, the table that \<^verbatim>\<open>make_armature\<close> returns has an entry
  for every name of \<open>requires\<close>, and each of its keys is a name of \<open>requires\<close> or of
  \<open>defines\<close>.
\<close>

theorem bone_name_all_dict_keys:
  "set HumanBones_requires \<subseteq> dom (snd (make_armature self))
   \<and> dom (snd (make_armature self)) \<subseteq> set (HumanBones_requires @ HumanBones_defines)"
  unfolding bone_name_all_dict_dom HumanBones_names_defs
  by simp

subsection \<open>Powers of two and rounding to an integer\<close>

lemma pow2_powr: "pow2 e = 2 powr of_int e"
proof (cases "0 \<le> e")
  case True
  then have "(2 :: real) ^ nat e = 2 powr of_int e"
    by (simp add: powr_realpow [symmetric])
  with True show ?thesis by (simp add: pow2_def)
next
  case False
  then have "(2 :: real) ^ nat (- e) = 2 powr of_int (- e)"
    by (simp add: powr_realpow [symmetric])
  with False show ?thesis by (simp add: pow2_def powr_minus_divide)
qed

lemma pow2_pos: "0 < pow2 e"
  by (simp add: pow2_powr)

lemma pow2_add: "pow2 (a + b) = pow2 a * pow2 b"
  by (simp add: pow2_powr powr_add)

lemma pow2_le_iff: "pow2 a \<le> pow2 b \<longleftrightarrow> a \<le> b"
  by (simp add: pow2_powr)

lemma pow2_less_iff: "pow2 a < pow2 b \<longleftrightarrow> a < b"
  by (simp add: pow2_powr)

lemma pow2_le_log: "0 < x \<Longrightarrow> pow2 e \<le> x \<longleftrightarrow> of_int e \<le> log 2 x"
  by (simp add: pow2_powr le_log_iff)

lemma pow2_gt_log: "0 < x \<Longrightarrow> x < pow2 e \<longleftrightarrow> log 2 x < of_int e"
  by (simp add: pow2_powr log_less_iff)

lemma pow2_of_int: "0 \<le> j \<Longrightarrow> of_int (2 ^ nat j) = pow2 j"
  by (simp add: pow2_def)

lemma pow2_nat: "0 \<le> j \<Longrightarrow> 2 ^ nat j = pow2 j"
  by (simp add: pow2_def)

lemma pow2_int: "2 ^ p = pow2 (int p)"
  by (simp add: pow2_def)

lemma rhe_floor: "round_half_even y = \<lfloor>y\<rfloor> \<or> round_half_even y = \<lfloor>y\<rfloor> + 1"
  by (simp add: round_half_even_def Let_def)

lemma rhe_of_int: "round_half_even (of_int n) = n"
  by (simp add: round_half_even_def Let_def)

lemma rhe_ge: "of_int n \<le> y \<Longrightarrow> n \<le> round_half_even y"
proof -
  assume "of_int n \<le> y"
  then have "n \<le> \<lfloor>y\<rfloor>" by (simp add: le_floor_iff)
  with rhe_floor [of y] show ?thesis by auto
qed

lemma rhe_le: "y \<le> of_int n \<Longrightarrow> round_half_even y \<le> n"
proof (cases "y = of_int n")
  case True
  then show ?thesis by (simp add: rhe_of_int)
next
  case False
  assume "y \<le> of_int n"
  with False have "y < of_int n" by simp
  then have "\<lfloor>y\<rfloor> < n" by (simp add: floor_less_iff)
  with rhe_floor [of y] show ?thesis by auto
qed

lemma rhe_near: "y - 1 / 2 \<le> of_int (round_half_even y) \<and> of_int (round_half_even y) \<le> y + 1 / 2"
proof -
  have a: "of_int \<lfloor>y\<rfloor> \<le> y" and b: "y < of_int \<lfloor>y\<rfloor> + 1" by linarith+
  show ?thesis
    unfolding round_half_even_def Let_def using a b by (intro conjI; simp; linarith)
qed

lemma rhe_le_double: "0 \<le> y \<Longrightarrow> of_int (round_half_even y) \<le> 2 * y"
proof (cases "y < 1 / 2")
  case True
  assume "0 \<le> y"
  with True have "\<lfloor>y\<rfloor> = 0" by (simp add: floor_eq_iff)
  with True have "round_half_even y = 0" by (simp add: round_half_even_def Let_def)
  with \<open>0 \<le> y\<close> show ?thesis by simp
next
  case False
  with rhe_near [of y] show ?thesis by linarith
qed

lemma rhe_ge_half: "1 \<le> y \<Longrightarrow> y / 2 \<le> of_int (round_half_even y)"
  using rhe_near [of y] by linarith

subsection \<open>Rounding to a binary format\<close>

lemma binary_exponent_ge: "emin \<le> binary_exponent emin x"
  by (simp add: binary_exponent_def)

lemma binary_ulp_pos: "0 < binary_ulp p emin x"
  by (simp add: binary_ulp_def pow2_pos)

lemma binary_ulp_ge: "pow2 (emin - (int p - 1)) \<le> binary_ulp p emin x"
  using binary_exponent_ge [of emin x] by (simp add: binary_ulp_def pow2_le_iff)

lemma binary_exponent_eq:
  assumes "pow2 e \<le> x" and "x < pow2 (e + 1)" and "emin \<le> e"
  shows "binary_exponent emin x = e"
proof -
  have pos: "0 < x" using assms(1) pow2_pos [of e] by linarith
  have "of_int e \<le> log 2 x" using assms(1) pos by (simp add: pow2_le_log)
  moreover have "log 2 x < of_int e + 1"
    using assms(2) pos by (simp add: pow2_gt_log)
  ultimately have "\<lfloor>log 2 x\<rfloor> = e" by (simp add: floor_eq_iff)
  with pos assms(3) show ?thesis by (simp add: binary_exponent_def)
qed

lemma binary_exponent_subnormal:
  assumes "0 < x" and "x < pow2 emin"
  shows "binary_exponent emin x = emin"
proof -
  have "log 2 x < of_int emin" using assms by (simp only: pow2_gt_log)
  then have "\<lfloor>log 2 x\<rfloor> < emin" by (simp add: floor_less_iff)
  with assms(1) show ?thesis by (simp add: binary_exponent_def)
qed

lemma binary_exponent_le:
  assumes "0 < x" and "x < pow2 (j + 1)" and "emin \<le> j"
  shows "binary_exponent emin x \<le> j"
proof -
  have "log 2 x < of_int (j + 1)" using assms(1,2) by (simp only: pow2_gt_log)
  then have "\<lfloor>log 2 x\<rfloor> < j + 1" by (simp only: floor_less_iff)
  with assms(1,3) show ?thesis by (simp add: binary_exponent_def)
qed

lemma binary_exponent_mono_pow2:
  assumes "pow2 j \<le> x"
  shows "j \<le> binary_exponent emin x"
proof -
  have pos: "0 < x" using assms pow2_pos [of j] by linarith
  have "of_int j \<le> log 2 x" using assms pos by (simp only: pow2_le_log)
  then have "j \<le> \<lfloor>log 2 x\<rfloor>" by (simp only: le_floor_iff)
  with pos show ?thesis by (simp add: binary_exponent_def)
qed

lemma binary_lt_next_binade:
  assumes "0 < x"
  shows "x < pow2 (binary_exponent emin x + 1)"
proof -
  have "log 2 x < of_int (\<lfloor>log 2 x\<rfloor> + 1)" by linarith
  also have "\<dots> \<le> of_int (binary_exponent emin x + 1)"
    using assms by (simp add: binary_exponent_def)
  finally show ?thesis using assms by (simp only: pow2_gt_log)
qed

lemma binary_ge_binade:
  assumes "pow2 emin \<le> x"
  shows "pow2 (binary_exponent emin x) \<le> x"
proof -
  have pos: "0 < x" using assms pow2_pos [of emin] by linarith
  have "of_int emin \<le> log 2 x" using assms pos by (simp only: pow2_le_log)
  then have "emin \<le> \<lfloor>log 2 x\<rfloor>" by (simp only: le_floor_iff)
  then have e: "binary_exponent emin x = \<lfloor>log 2 x\<rfloor>"
    using pos by (simp add: binary_exponent_def)
  have "of_int \<lfloor>log 2 x\<rfloor> \<le> log 2 x" by simp
  with pos e show ?thesis by (simp only: pow2_le_log)
qed

lemma binary_scaled_lt:
  assumes "0 < x"
  shows "x / binary_ulp p emin x < pow2 (int p)"
proof -
  let ?e = "binary_exponent emin x"
  have "pow2 (?e + 1) = pow2 (int p) * pow2 (?e - (int p - 1))"
    using pow2_add [of "int p" "?e - (int p - 1)"] by (simp add: algebra_simps)
  with binary_lt_next_binade [OF assms, of emin] show ?thesis
    using pow2_pos [of "?e - (int p - 1)"] by (simp add: binary_ulp_def pos_divide_less_eq)
qed

lemma binary_scaled_ge:
  assumes "pow2 emin \<le> x"
  shows "pow2 (int p - 1) \<le> x / binary_ulp p emin x"
proof -
  let ?e = "binary_exponent emin x"
  have "pow2 ?e = pow2 (int p - 1) * pow2 (?e - (int p - 1))"
    using pow2_add [of "int p - 1" "?e - (int p - 1)"] by (simp add: algebra_simps)
  with binary_ge_binade [OF assms] show ?thesis
    using pow2_pos [of "?e - (int p - 1)"] by (simp add: binary_ulp_def pos_le_divide_eq)
qed

lemma binary_round_pos_eq:
  "0 < x \<Longrightarrow>
   binary_round p emin x
     = of_int (round_half_even (x / binary_ulp p emin x)) * binary_ulp p emin x"
  by (simp add: binary_round_def)

lemma binary_round_zero: "binary_round p emin 0 = 0"
  by (simp add: binary_round_def)

lemma binary_round_minus: "binary_round p emin (- x) = - binary_round p emin x"
  by (simp add: binary_round_def binary_ulp_def binary_exponent_def sgn_minus)

lemma binary_round_nonneg: "0 \<le> x \<Longrightarrow> 0 \<le> binary_round p emin x"
proof (cases "x = 0")
  case True
  then show ?thesis by (simp add: binary_round_zero)
next
  case False
  assume "0 \<le> x"
  with False have pos: "0 < x" by simp
  have "0 \<le> x / binary_ulp p emin x" using pos binary_ulp_pos [of p emin x] by simp
  then have "0 \<le> round_half_even (x / binary_ulp p emin x)"
    using rhe_ge [of 0 "x / binary_ulp p emin x"] by simp
  then show ?thesis
    using pos binary_ulp_pos [of p emin x] by (simp add: binary_round_pos_eq)
qed

lemma binary_round_abs: "\<bar>binary_round p emin x\<bar> = binary_round p emin \<bar>x\<bar>"
proof (cases "0 \<le> x")
  case True
  then show ?thesis using binary_round_nonneg [of x p emin] by simp
next
  case False
  then have "0 \<le> - x" by simp
  from binary_round_nonneg [OF this, of p emin] False show ?thesis
    by (simp add: binary_round_minus)
qed

lemma binary_round_le_multiple:
  assumes "0 < x" and "x \<le> of_int k * binary_ulp p emin x"
  shows "binary_round p emin x \<le> of_int k * binary_ulp p emin x"
proof -
  let ?u = "binary_ulp p emin x"
  have "x / ?u \<le> of_int k"
    using assms(2) binary_ulp_pos [of p emin x] by (simp add: pos_divide_le_eq)
  then have "round_half_even (x / ?u) \<le> k" by (rule rhe_le)
  then have "(of_int (round_half_even (x / ?u)) :: real) \<le> of_int k" by simp
  then show ?thesis
    using assms(1) binary_ulp_pos [of p emin x]
    by (simp add: binary_round_pos_eq mult_right_mono)
qed

lemma binary_round_ge_multiple:
  assumes "0 < x" and "of_int k * binary_ulp p emin x \<le> x"
  shows "of_int k * binary_ulp p emin x \<le> binary_round p emin x"
proof -
  let ?u = "binary_ulp p emin x"
  have "of_int k \<le> x / ?u"
    using assms(2) binary_ulp_pos [of p emin x] by (simp add: pos_le_divide_eq)
  then have "k \<le> round_half_even (x / ?u)" by (rule rhe_ge)
  then have "(of_int k :: real) \<le> of_int (round_half_even (x / ?u))" by simp
  then show ?thesis
    using assms(1) binary_ulp_pos [of p emin x]
    by (simp add: binary_round_pos_eq mult_right_mono)
qed

lemma binary_round_ge_binade:
  assumes "pow2 emin \<le> x" and "0 < p"
  shows "pow2 (binary_exponent emin x) \<le> binary_round p emin x"
proof -
  have pos: "0 < x" using assms(1) pow2_pos [of emin] by linarith
  let ?e = "binary_exponent emin x"
  have "of_int (2 ^ nat (int p - 1)) = pow2 (int p - 1)"
    using assms(2) by (intro pow2_of_int) simp
  then have eq: "of_int (2 ^ nat (int p - 1)) * binary_ulp p emin x = pow2 ?e"
    using pow2_add [of "int p - 1" "?e - (int p - 1)"]
    by (simp add: binary_ulp_def)
  with binary_ge_binade [OF assms(1)]
  have "of_int (2 ^ nat (int p - 1)) * binary_ulp p emin x \<le> x" by simp
  from binary_round_ge_multiple [OF pos this] eq show ?thesis by simp
qed

lemma binary_round_ge_pow2:
  assumes "pow2 j \<le> x" and "emin \<le> j" and "0 < p"
  shows "pow2 j \<le> binary_round p emin x"
proof -
  have "pow2 emin \<le> pow2 j" using assms(2) by (simp only: pow2_le_iff)
  with assms(1) have n: "pow2 emin \<le> x" by linarith
  have "pow2 j \<le> pow2 (binary_exponent emin x)"
    using binary_exponent_mono_pow2 [OF assms(1), of emin] by (simp only: pow2_le_iff)
  with binary_round_ge_binade [OF n assms(3)] show ?thesis by linarith
qed

lemma binary_round_le_double:
  assumes "0 \<le> x"
  shows "binary_round p emin x \<le> 2 * x"
proof (cases "x = 0")
  case True
  then show ?thesis by (simp add: binary_round_zero)
next
  case False
  with assms have pos: "0 < x" by simp
  let ?u = "binary_ulp p emin x"
  have u: "0 < ?u" by (rule binary_ulp_pos)
  have "0 \<le> x / ?u" using pos u by simp
  then have "of_int (round_half_even (x / ?u)) \<le> 2 * (x / ?u)" by (rule rhe_le_double)
  then have "of_int (round_half_even (x / ?u)) * ?u \<le> 2 * (x / ?u) * ?u"
    using u by (simp only: mult_right_mono less_imp_le)
  with u pos show ?thesis by (simp add: binary_round_pos_eq)
qed

lemma binary_round_ge_half:
  assumes "pow2 emin \<le> x" and "0 < p"
  shows "x / 2 \<le> binary_round p emin x"
proof -
  have pos: "0 < x" using assms(1) pow2_pos [of emin] by linarith
  let ?u = "binary_ulp p emin x"
  have u: "0 < ?u" by (rule binary_ulp_pos)
  have "pow2 0 \<le> pow2 (int p - 1)" using assms(2) by (simp add: pow2_le_iff)
  with binary_scaled_ge [OF assms(1), of p] have "1 \<le> x / ?u" by (simp add: pow2_def)
  then have "x / ?u / 2 \<le> of_int (round_half_even (x / ?u))" by (rule rhe_ge_half)
  then have "x / ?u / 2 * ?u \<le> of_int (round_half_even (x / ?u)) * ?u"
    using u by (simp only: mult_right_mono less_imp_le)
  with u pos show ?thesis by (simp add: binary_round_pos_eq)
qed

lemma binary_round_pos_ge_ulp:
  assumes "0 \<le> x"
  shows "binary_round p emin x = 0 \<or> pow2 (emin - (int p - 1)) \<le> binary_round p emin x"
proof (cases "x = 0")
  case True
  then show ?thesis by (simp add: binary_round_zero)
next
  case False
  with assms have pos: "0 < x" by simp
  let ?u = "binary_ulp p emin x"
  let ?m = "round_half_even (x / ?u)"
  have u: "0 < ?u" by (rule binary_ulp_pos)
  have "of_int 0 \<le> x / ?u" using pos u by simp
  then have "0 \<le> ?m" by (rule rhe_ge)
  then consider "?m = 0" | "1 \<le> ?m" by linarith
  then show ?thesis
  proof cases
    case 1
    with pos show ?thesis by (simp add: binary_round_pos_eq)
  next
    case 2
    then have "(1 :: real) \<le> of_int ?m" by simp
    then have "1 * ?u \<le> of_int ?m * ?u" using u by (simp only: mult_right_mono less_imp_le)
    with binary_ulp_ge [of emin p x] pos show ?thesis
      by (simp add: binary_round_pos_eq)
  qed
qed

lemma binary_round_binade:
  assumes "pow2 e \<le> x" and "x < pow2 (e + 1)" and "emin \<le> e"
  shows "binary_round p emin x
           = of_int (round_half_even (x / pow2 (e - (int p - 1)))) * pow2 (e - (int p - 1))"
proof -
  have pos: "0 < x" using assms(1) pow2_pos [of e] by linarith
  from binary_exponent_eq [OF assms] pos show ?thesis
    by (simp add: binary_round_pos_eq binary_ulp_def)
qed

lemma binary_round_subnormal:
  assumes "0 < x" and "x < pow2 emin"
  shows "binary_round p emin x
           = of_int (round_half_even (x / pow2 (emin - (int p - 1))))
             * pow2 (emin - (int p - 1))"
  using binary_exponent_subnormal [OF assms] assms(1)
  by (simp add: binary_round_pos_eq binary_ulp_def)


text \<open>
  A number of the format rounds to itself: a multiple \<open>k\<close> of \<open>pow2 (j - (p - 1))\<close> with a
  \<open>p\<close>-bit \<open>k\<close> (normal), or a smaller multiple of \<open>pow2 (emin - (p - 1))\<close> (subnormal).
\<close>

lemma binary_round_normal:
  assumes "pow2 (int p - 1) \<le> of_int k" and "of_int k < pow2 (int p)" and "emin \<le> j"
  shows "binary_round p emin (of_int k * pow2 (j - (int p - 1)))
           = of_int k * pow2 (j - (int p - 1))"
proof -
  let ?q = "pow2 (j - (int p - 1))"
  have q: "0 < ?q" by (rule pow2_pos)
  have lo: "pow2 j = pow2 (int p - 1) * ?q"
    using pow2_add [of "int p - 1" "j - (int p - 1)"] by simp
  have hi: "pow2 (j + 1) = pow2 (int p) * ?q"
    using pow2_add [of "int p" "j - (int p - 1)"] by (simp add: algebra_simps)
  have a: "pow2 j \<le> of_int k * ?q" using assms(1) q lo by (simp add: mult_right_mono)
  have b: "of_int k * ?q < pow2 (j + 1)"
    using assms(2) q hi by (simp add: mult_strict_right_mono)
  from binary_round_binade [OF a b assms(3), of p] q show ?thesis
    by (simp add: rhe_of_int)
qed

lemma binary_round_subnormal_multiple:
  assumes "0 < k" and "of_int k < pow2 (int p - 1)"
  shows "binary_round p emin (of_int k * pow2 (emin - (int p - 1)))
           = of_int k * pow2 (emin - (int p - 1))"
proof -
  let ?q = "pow2 (emin - (int p - 1))"
  have q: "0 < ?q" by (rule pow2_pos)
  have hi: "pow2 emin = pow2 (int p - 1) * ?q"
    using pow2_add [of "int p - 1" "emin - (int p - 1)"] by simp
  have b: "of_int k * ?q < pow2 emin"
    using assms(2) q hi by (simp add: mult_strict_right_mono)
  have a: "0 < of_int k * ?q" using assms(1) q by simp
  from binary_round_subnormal [OF a b, of p] q show ?thesis
    by (simp add: rhe_of_int)
qed

lemma binary_round_idem_pos:
  assumes "0 < x" and "0 < p"
  shows "binary_round p emin (binary_round p emin x) = binary_round p emin x"
proof -
  let ?e = "binary_exponent emin x"
  let ?q = "pow2 (?e - (int p - 1))"
  let ?m = "round_half_even (x / binary_ulp p emin x)"
  let ?T = "2 ^ nat (int p - 1) :: int"
  let ?U = "2 ^ p :: int"
  have T: "of_int ?T = pow2 (int p - 1)" using assms(2) by (intro pow2_of_int) simp
  have U: "of_int ?U = pow2 (int p)" by (simp add: pow2_int)
  have r: "binary_round p emin x = of_int ?m * ?q"
    using assms(1) by (simp add: binary_round_pos_eq binary_ulp_def)
  have e: "emin \<le> ?e" by (rule binary_exponent_ge)
  have "x / binary_ulp p emin x \<le> of_int ?U"
    using binary_scaled_lt [OF assms(1), of p emin] by (simp only: U)
  then have m_le: "?m \<le> ?U" by (rule rhe_le)
  have "of_int 0 \<le> x / binary_ulp p emin x"
    using assms(1) binary_ulp_pos [of p emin x] by simp
  then have m_ge: "0 \<le> ?m" by (rule rhe_ge)
  consider "?m = 0" | "0 < ?m" "?m < ?T" | "?T \<le> ?m" "?m < ?U" | "?m = ?U"
    using m_le m_ge by linarith
  then show ?thesis
  proof cases
    case 1
    with r show ?thesis by (simp add: binary_round_zero)
  next
    case 2
    have "x < pow2 emin"
    proof (rule ccontr)
      assume "\<not> x < pow2 emin"
      then have "pow2 emin \<le> x" by simp
      from binary_scaled_ge [OF this, of p] have "of_int ?T \<le> x / binary_ulp p emin x"
        by (simp only: T)
      then have "?T \<le> ?m" by (rule rhe_ge)
      with 2 show False by simp
    qed
    from binary_exponent_subnormal [OF assms(1) this] have ee: "?e = emin" .
    have "(of_int ?m :: real) < of_int ?T" using 2(2) by (simp only: of_int_less_iff)
    then have "of_int ?m < pow2 (int p - 1)" by (simp only: T)
    from binary_round_subnormal_multiple [OF 2(1) this, of emin] r ee show ?thesis by simp
  next
    case 3
    have "(of_int ?T :: real) \<le> of_int ?m" using 3(1) by (simp only: of_int_le_iff)
    then have a: "pow2 (int p - 1) \<le> of_int ?m" by (simp only: T)
    have "(of_int ?m :: real) < of_int ?U" using 3(2) by (simp only: of_int_less_iff)
    then have b: "of_int ?m < pow2 (int p)" by (simp only: U)
    from binary_round_normal [OF a b e] r show ?thesis by simp
  next
    case 4
    have "of_int ?m * ?q = pow2 (int p) * ?q" using 4 U by simp
    also have "\<dots> = pow2 (int p - 1) * pow2 ((?e + 1) - (int p - 1))"
      using pow2_add [of "int p" "?e - (int p - 1)"]
        pow2_add [of "int p - 1" "(?e + 1) - (int p - 1)"]
      by (simp add: algebra_simps)
    finally have eq: "of_int ?m * ?q = of_int ?T * pow2 ((?e + 1) - (int p - 1))"
      by (simp only: T)
    have a: "pow2 (int p - 1) \<le> of_int ?T" by (simp only: T)
    have b: "of_int ?T < pow2 (int p)" unfolding T by (simp add: pow2_less_iff)
    have "emin \<le> ?e + 1" using e by simp
    from binary_round_normal [OF a b this] eq r show ?thesis by simp
  qed
qed

lemma binary_round_idem:
  assumes "0 < p"
  shows "binary_round p emin (binary_round p emin x) = binary_round p emin x"
proof -
  consider "x = 0" | "0 < x" | "x < 0" by linarith
  then show ?thesis
  proof cases
    case 1
    then show ?thesis by (simp add: binary_round_zero)
  next
    case 2
    then show ?thesis using assms by (rule binary_round_idem_pos)
  next
    case 3
    then have "0 < - x" by simp
    from binary_round_idem_pos [OF this assms, of emin] show ?thesis
      by (simp add: binary_round_minus)
  qed
qed

subsection \<open>binary32: \<^verbatim>\<open>struct.pack\<close>\<close>

lemma float32_round_zero: "float32_round 0 = 0"
  by (simp add: float32_round_def binary_round_zero)

lemma float32_round_nonneg: "0 \<le> x \<Longrightarrow> 0 \<le> float32_round x"
  by (simp add: float32_round_def binary_round_nonneg)

lemma float32_round_idem: "float32_round (float32_round x) = float32_round x"
  by (simp add: float32_round_def binary_round_idem)

lemma float32_round_pos_ge_ulp:
  "0 \<le> x \<Longrightarrow> float32_round x = 0 \<or> pow2 (- 149) \<le> float32_round x"
  using binary_round_pos_ge_ulp [of x 24 "- 126"] by (simp add: float32_round_def)

lemma float32_round_ge_pow2:
  "pow2 j \<le> x \<Longrightarrow> - 126 \<le> j \<Longrightarrow> pow2 j \<le> float32_round x"
  using binary_round_ge_pow2 [of j x "- 126" 24] by (simp add: float32_round_def)

lemma float32_max_lt: "float32_max < pow2 128"
  by (simp add: float32_max_def pow2_def)

lemma float32_max_eq: "float32_max = (2 ^ 24 - 1) * pow2 104"
  by (simp add: float32_max_def pow2_def)

lemma float32_round_le_max:
  assumes "0 \<le> x" and "x \<le> float32_max"
  shows "float32_round x \<le> float32_max"
proof (cases "x = 0")
  case True
  then show ?thesis by (simp add: float32_round_zero float32_max_def)
next
  case False
  with assms have pos: "0 < x" by simp
  let ?e = "binary_exponent (- 126) x"
  have u: "binary_ulp 24 (- 126) x = pow2 (?e - 23)" by (simp add: binary_ulp_def)
  have "x < pow2 (127 + 1)" using assms(2) float32_max_lt by simp
  then have e: "?e \<le> 127"
    by (intro binary_exponent_le [OF pos]) simp_all
  have "of_int ((2 ^ 24 - 1) * 2 ^ nat (127 - ?e)) * pow2 (?e - 23)
      = (2 ^ 24 - 1) * (pow2 (127 - ?e) * pow2 (?e - 23))"
    using e pow2_of_int [of "127 - ?e"] by simp
  also have "\<dots> = (2 ^ 24 - 1) * pow2 104"
    using pow2_add [of "127 - ?e" "?e - 23"] by simp
  finally have "of_int ((2 ^ 24 - 1) * 2 ^ nat (127 - ?e)) * binary_ulp 24 (- 126) x
      = float32_max"
    by (simp only: float32_max_eq u)
  with binary_round_le_multiple [OF pos, of "(2 ^ 24 - 1) * 2 ^ nat (127 - ?e)" 24 "- 126"]
    assms(2)
  show ?thesis by (simp add: float32_round_def)
qed

lemma pack_f_in_range:
  assumes "0 \<le> x" and "x \<le> float32_max"
  shows "pack_f x = Inr (float32_round x)"
  using float32_round_nonneg [OF assms(1)] float32_round_le_max [OF assms]
  by (simp add: pack_f_def)

lemma pack_f_zero: "pack_f 0 = Inr 0"
  by (simp add: pack_f_def float32_round_zero float32_max_def)

lemma to_gl_float_four:
  "pack_f a = Inr a' \<Longrightarrow> pack_f b = Inr b' \<Longrightarrow> pack_f c = Inr c' \<Longrightarrow>
   pack_f d = Inr d' \<Longrightarrow> to_gl_float [a, b, c, d] = Inr [a', b', c', d']"
  by (simp add: to_gl_float_def)

lemma pack_f_idem: "pack_f x = Inr y \<Longrightarrow> pack_f y = Inr y"
  by (auto simp: pack_f_def float32_round_idem split: if_splits)

lemma pack_all_idem: "pack_all xs = Inr ys \<Longrightarrow> pack_all ys = Inr ys"
proof (induction xs arbitrary: ys)
  case Nil
  then show ?case by simp
next
  case (Cons x xs)
  then show ?case
    by (auto simp: pack_f_idem split: sum.splits)
qed

lemma pack_all_length: "pack_all xs = Inr ys \<Longrightarrow> length ys = length xs"
  by (induction xs arbitrary: ys) (auto split: sum.splits)

lemma to_gl_float_idem: "to_gl_float v = Inr u \<Longrightarrow> to_gl_float u = Inr u"
  by (auto simp: to_gl_float_def pack_all_idem pack_all_length split: if_splits)

subsection \<open>binary64: the arithmetic of Python floats\<close>

lemma float64_round_zero: "float64_round 0 = 0"
  by (simp add: float64_round_def binary_round_zero)

lemma float64_round_minus: "float64_round (- x) = - float64_round x"
  by (simp add: float64_round_def binary_round_minus)

lemma float64_max_ge: "pow2 1001 \<le> float64_max"
  by (simp add: float64_max_def pow2_def)

lemma float64_some:
  assumes "\<bar>x\<bar> \<le> pow2 1000"
  shows "float64 x = Some (float64_round x)"
proof -
  have "\<bar>float64_round x\<bar> = float64_round \<bar>x\<bar>"
    by (simp add: float64_round_def binary_round_abs)
  also have "\<dots> \<le> 2 * \<bar>x\<bar>"
    using binary_round_le_double [of "\<bar>x\<bar>" 53 "- 1022"] by (simp add: float64_round_def)
  also have "\<dots> \<le> 2 * pow2 1000" using assms by simp
  also have "\<dots> = pow2 1001" using pow2_add [of 1 1000] by (simp add: pow2_def)
  finally show ?thesis using float64_max_ge by (simp add: float64_def)
qed

lemma float64_bounds:
  assumes "y = 0 \<or> pow2 (- 1022) \<le> y"
  shows "y \<le> 2 * float64_round y" and "float64_round y \<le> 2 * y"
proof -
  have nn: "0 \<le> y" using assms pow2_pos [of "- 1022"] by linarith
  show "float64_round y \<le> 2 * y"
    using binary_round_le_double [OF nn] by (simp add: float64_round_def)
  show "y \<le> 2 * float64_round y"
  proof (cases "y = 0")
    case True
    then show ?thesis by (simp add: float64_round_zero)
  next
    case False
    with assms have "pow2 (- 1022) \<le> y" by simp
    then show ?thesis
      using binary_round_ge_half [of "- 1022" y 53] by (simp add: float64_round_def)
  qed
qed


lemma float64_zero: "float64 0 = Some 0"
  using float64_some [of 0] pow2_pos [of 1000] by (simp add: float64_round_zero)

lemma float32_max_bound: "0 \<le> float32_max" "80 * float32_max \<le> pow2 1000"
  by (simp_all add: float32_max_def pow2_def)

text \<open>
  \<^verbatim>\<open>sum\<close> of four non-negative binary32 numbers: no addition overflows, and the roundings
  change the sum by a bounded factor.
\<close>

lemma py_sum_four:
  assumes "a = 0 \<or> pow2 (- 149) \<le> a" and "a \<le> float32_max"
    and "b = 0 \<or> pow2 (- 149) \<le> b" and "b \<le> float32_max"
    and "c = 0 \<or> pow2 (- 149) \<le> c" and "c \<le> float32_max"
    and "d = 0 \<or> pow2 (- 149) \<le> d" and "d \<le> float32_max"
  shows "\<exists>s. py_sum [a, b, c, d] = Some s \<and> a + b + c + d \<le> 16 * s
           \<and> s \<le> 16 * (a + b + c + d)"
proof -
  define P where "P = pow2 (- 149)"
  define Q where "Q = pow2 (- 1022)"
  define M where "M = pow2 1000"
  have P: "0 < P" "0 < Q" "8 * Q \<le> P"
    by (simp_all add: P_def Q_def pow2_def)
  have M: "0 \<le> float32_max" "80 * float32_max \<le> M"
    using float32_max_bound by (simp_all add: M_def)
  note el = assms [folded P_def]
  have nn: "0 \<le> a" "0 \<le> b" "0 \<le> c" "0 \<le> d"
    using el P(1) by auto
  define s1 where "s1 = float64_round a"
  have z1: "a = 0 \<or> Q \<le> a" using el(1) P by auto
  have "\<bar>a\<bar> \<le> M" using nn el(2) M by linarith
  then have f1: "float64 a = Some s1"
    unfolding s1_def M_def by (rule float64_some)
  have b1: "a \<le> 2 * s1" "s1 \<le> 2 * a"
    using float64_bounds [OF z1 [unfolded Q_def]] by (simp_all add: s1_def)
  define s2 where "s2 = float64_round (s1 + b)"
  have z2: "s1 + b = 0 \<or> Q \<le> s1 + b" using el(1,3) b1 P nn by auto
  have "\<bar>s1 + b\<bar> \<le> M" using nn el(2,4) b1 M by linarith
  then have f2: "float64 (s1 + b) = Some s2"
    unfolding s2_def M_def by (rule float64_some)
  have b2: "s1 + b \<le> 2 * s2" "s2 \<le> 2 * (s1 + b)"
    using float64_bounds [OF z2 [unfolded Q_def]] by (simp_all add: s2_def)
  define s3 where "s3 = float64_round (s2 + c)"
  have z3: "s2 + c = 0 \<or> Q \<le> s2 + c" using el(1,3,5) b1 b2 P nn by auto
  have "0 \<le> s2 + c" "s2 + c \<le> 7 * float32_max" using nn el(2,4,6) b1 b2 by argo+
  then have "\<bar>s2 + c\<bar> \<le> M" using M by linarith
  then have f3: "float64 (s2 + c) = Some s3"
    unfolding s3_def M_def by (rule float64_some)
  have b3: "s2 + c \<le> 2 * s3" "s3 \<le> 2 * (s2 + c)"
    using float64_bounds [OF z3 [unfolded Q_def]] by (simp_all add: s3_def)
  define s4 where "s4 = float64_round (s3 + d)"
  have z4: "s3 + d = 0 \<or> Q \<le> s3 + d" using el(1,3,5,7) b1 b2 b3 P nn by auto
  have "0 \<le> s3 + d" "s3 + d \<le> 15 * float32_max"
    using nn el(2,4,6,8) b1 b2 b3 by argo+
  then have "\<bar>s3 + d\<bar> \<le> M" using M by linarith
  then have f4: "float64 (s3 + d) = Some s4"
    unfolding s4_def M_def by (rule float64_some)
  have b4: "s3 + d \<le> 2 * s4" "s4 \<le> 2 * (s3 + d)"
    using float64_bounds [OF z4 [unfolded Q_def]] by (simp_all add: s4_def)
  have "py_sum [a, b, c, d] = Some s4"
    by (simp add: py_sum_def f1 f2 f3 f4)
  moreover have "a + b + c + d \<le> 16 * s4" using b1 b2 b3 b4 nn by argo
  moreover have "s4 \<le> 16 * (a + b + c + d)" using b1 b2 b3 b4 nn by argo
  ultimately show ?thesis by blast
qed

text \<open>One quotient \<^verbatim>\<open>weights[i] / sum(weights)\<close> and its packing.\<close>

lemma quotient_packs:
  assumes "0 \<le> v" and "v \<le> 16 * s" and "0 < s"
  shows "float64 (v / s) = Some (float64_round (v / s))"
    and "pack_f (float64_round (v / s)) = Inr (float32_round (float64_round (v / s)))"
    and "0 \<le> float32_round (float64_round (v / s))"
    and "float32_round (float64_round (v / s)) = 0
         \<or> pow2 (- 149) \<le> float32_round (float64_round (v / s))"
    and "float32_round (float64_round (v / s)) \<le> float32_max"
proof -
  let ?q = "float64_round (v / s)"
  have lo: "0 \<le> v / s" using assms(1,3) by simp
  have hi: "v / s \<le> 16" using assms(2,3) by (simp add: pos_divide_le_eq)
  have "(16 :: real) \<le> pow2 1000" by (simp add: pow2_def)
  with lo hi show "float64 (v / s) = Some ?q" by (intro float64_some) simp
  have q0: "0 \<le> ?q" using lo by (simp add: float64_round_def binary_round_nonneg)
  have "?q \<le> 2 * (v / s)"
    using binary_round_le_double [OF lo] by (simp add: float64_round_def)
  with hi have "?q \<le> 32" by linarith
  moreover have "32 \<le> float32_max" by (simp add: float32_max_def)
  ultimately have q1: "?q \<le> float32_max" by linarith
  from q0 q1 show "pack_f ?q = Inr (float32_round ?q)" by (rule pack_f_in_range)
  from q0 show "0 \<le> float32_round ?q" by (rule float32_round_nonneg)
  from q0 show "float32_round ?q = 0 \<or> pow2 (- 149) \<le> float32_round ?q"
    by (rule float32_round_pos_ge_ulp)
  from q0 q1 show "float32_round ?q \<le> float32_max" by (rule float32_round_le_max)
qed

lemma quotient_large:
  assumes "s \<le> 64 * v" and "0 < s"
  shows "0 < float32_round (float64_round (v / s))"
proof -
  let ?q = "float64_round (v / s)"
  have lo: "1 / 64 \<le> v / s" using assms by (simp add: pos_le_divide_eq)
  have "pow2 (- 1022) \<le> 1 / 64" by (simp add: pow2_def)
  with lo have "v / s = 0 \<or> pow2 (- 1022) \<le> v / s" by linarith
  from float64_bounds(1) [OF this] lo have "1 / 128 \<le> ?q" by linarith
  then have "pow2 (- 7) \<le> ?q" by (simp add: pow2_def)
  then have "pow2 (- 7) \<le> float32_round ?q" by (rule float32_round_ge_pow2) simp
  with pow2_pos [of "- 7"] show ?thesis by linarith
qed

lemma next_weights_nonneg:
  assumes "a = 0 \<or> pow2 (- 149) \<le> a" and "a \<le> float32_max"
    and "b = 0 \<or> pow2 (- 149) \<le> b" and "b \<le> float32_max"
    and "c = 0 \<or> pow2 (- 149) \<le> c" and "c \<le> float32_max"
    and "d = 0 \<or> pow2 (- 149) \<le> d" and "d \<le> float32_max"
    and "0 < a + b + c + d"
  shows "\<exists>a' b' c' d'. next_weights [a, b, c, d] = Returns [a', b', c', d']
           \<and> (a' = 0 \<or> pow2 (- 149) \<le> a') \<and> a' \<le> float32_max
           \<and> (b' = 0 \<or> pow2 (- 149) \<le> b') \<and> b' \<le> float32_max
           \<and> (c' = 0 \<or> pow2 (- 149) \<le> c') \<and> c' \<le> float32_max
           \<and> (d' = 0 \<or> pow2 (- 149) \<le> d') \<and> d' \<le> float32_max
           \<and> 0 < a' + b' + c' + d'"
proof -
  have nn: "0 \<le> a" "0 \<le> b" "0 \<le> c" "0 \<le> d"
    using assms(1,3,5,7) pow2_pos [of "- 149"] by auto
  from py_sum_four [OF assms(1-8)] obtain s where s: "py_sum [a, b, c, d] = Some s"
    and lo: "a + b + c + d \<le> 16 * s" and hi: "s \<le> 16 * (a + b + c + d)"
    by blast
  have pos: "0 < s" using lo assms(9) by linarith
  let ?r = "\<lambda>v. float32_round (float64_round (v / s))"
  have le: "a \<le> 16 * s" "b \<le> 16 * s" "c \<le> 16 * s" "d \<le> 16 * s"
    using lo nn by linarith+
  note qa = quotient_packs [OF nn(1) le(1) pos]
  note qb = quotient_packs [OF nn(2) le(2) pos]
  note qc = quotient_packs [OF nn(3) le(3) pos]
  note qd = quotient_packs [OF nn(4) le(4) pos]
  have "s \<le> 64 * a \<or> s \<le> 64 * b \<or> s \<le> 64 * c \<or> s \<le> 64 * d"
  proof (rule ccontr)
    assume "\<not> (s \<le> 64 * a \<or> s \<le> 64 * b \<or> s \<le> 64 * c \<or> s \<le> 64 * d)"
    then have "64 * a < s" "64 * b < s" "64 * c < s" "64 * d < s" by simp_all
    with hi pos show False by argo
  qed
  then have "0 < ?r a \<or> 0 < ?r b \<or> 0 < ?r c \<or> 0 < ?r d"
    using quotient_large [OF _ pos] by blast
  with qa(3) qb(3) qc(3) qd(3) have sum: "0 < ?r a + ?r b + ?r c + ?r d" by linarith
  have "to_gl_float [float64_round (a / s), float64_round (b / s), float64_round (c / s),
      float64_round (d / s)] = Inr [?r a, ?r b, ?r c, ?r d]"
    using qa(2) qb(2) qc(2) qd(2) by (rule to_gl_float_four)
  then have "next_weights [a, b, c, d] = Returns [?r a, ?r b, ?r c, ?r d]"
    using s pos qa(1) qb(1) qc(1) qd(1) by (simp add: next_weights_def)
  with qa(4,5) qb(4,5) qc(4,5) qd(4,5) sum show ?thesis by blast
qed

lemma sum_error_four:
  assumes "0 \<le> a" "a \<le> float32_max" "0 \<le> b" "b \<le> float32_max"
    and "0 \<le> c" "c \<le> float32_max" "0 \<le> d" "d \<le> float32_max"
  shows "\<exists>e. sum_error [a, b, c, d] = Some e"
proof -
  define t where "t = a + b + c + d"
  define M where "M = pow2 1000"
  have M: "80 * float32_max \<le> M" "2 * M \<le> float64_max" "0 \<le> float32_max"
    using float32_max_bound float64_max_ge pow2_add [of 1 1000]
    by (simp_all add: M_def pow2_def [of 1])
  have t: "0 \<le> t" "t \<le> 4 * float32_max" using assms by (simp_all add: t_def)
  have "sum_list (map abs [a, b, c, d]) = t" using assms by (simp add: t_def add.assoc)
  moreover have "sum_list [a, b, c, d] = t" by (simp add: t_def add.assoc)
  moreover have "\<not> float64_max < t" using t M by linarith
  ultimately have f: "math_fsum [a, b, c, d] = Some (float64_round t)"
    by (simp only: math_fsum_def if_False)
  define r where "r = float64_round t"
  have "0 \<le> r" using t(1) by (simp add: r_def float64_round_def binary_round_nonneg)
  moreover have "r \<le> 2 * t"
    using binary_round_le_double [OF t(1)] by (simp add: r_def float64_round_def)
  moreover have "(1 :: real) \<le> float32_max" by (simp add: float32_max_def)
  ultimately have "\<bar>1 - r\<bar> \<le> M" using t M by linarith
  then have "float64 (1 - r) = Some (float64_round (1 - r))"
    unfolding M_def by (rule float64_some)
  with f show ?thesis by (simp add: sum_error_def r_def)
qed

lemma refine_nonneg:
  assumes "a = 0 \<or> pow2 (- 149) \<le> a" and "a \<le> float32_max"
    and "b = 0 \<or> pow2 (- 149) \<le> b" and "b \<le> float32_max"
    and "c = 0 \<or> pow2 (- 149) \<le> c" and "c \<le> float32_max"
    and "d = 0 \<or> pow2 (- 149) \<le> d" and "d \<le> float32_max"
    and "0 < a + b + c + d"
  shows "\<exists>r. refine n [a, b, c, d] = Returns r"
  using assms
proof (induction n arbitrary: a b c d)
  case 0
  then show ?case by simp
next
  case (Suc n)
  from next_weights_nonneg [OF Suc.prems]
  obtain a' b' c' d' where nw: "next_weights [a, b, c, d] = Returns [a', b', c', d']"
    and inv: "a' = 0 \<or> pow2 (- 149) \<le> a'" "a' \<le> float32_max"
      "b' = 0 \<or> pow2 (- 149) \<le> b'" "b' \<le> float32_max"
      "c' = 0 \<or> pow2 (- 149) \<le> c'" "c' \<le> float32_max"
      "d' = 0 \<or> pow2 (- 149) \<le> d'" "d' \<le> float32_max"
      "0 < a' + b' + c' + d'"
    by blast
  have nn: "0 \<le> a" "0 \<le> b" "0 \<le> c" "0 \<le> d"
    using Suc.prems(1,3,5,7) pow2_pos [of "- 149"] by auto
  have nn': "0 \<le> a'" "0 \<le> b'" "0 \<le> c'" "0 \<le> d'"
    using inv(1,3,5,7) pow2_pos [of "- 149"] by auto
  obtain e where e: "sum_error [a, b, c, d] = Some e"
    using sum_error_four [OF nn(1) Suc.prems(2) nn(2) Suc.prems(4) nn(3) Suc.prems(6)
        nn(4) Suc.prems(8)] by blast
  obtain e' where e': "sum_error [a', b', c', d'] = Some e'"
    using sum_error_four [OF nn'(1) inv(2) nn'(2) inv(4) nn'(3) inv(6) nn'(4) inv(8)]
    by blast
  from Suc.IH [OF inv] obtain r where "refine n [a', b', c', d'] = Returns r" by blast
  with nw e e' show ?case by simp
qed

lemma float64_round_binade:
  assumes "pow2 e \<le> x" and "x < pow2 (e + 1)" and "- 1022 \<le> e"
  shows "float64_round x = of_int (round_half_even (x / pow2 (e - 52))) * pow2 (e - 52)"
  using binary_round_binade [OF assms, of 53] by (simp add: float64_round_def)

lemma float32_round_binade:
  assumes "pow2 e \<le> x" and "x < pow2 (e + 1)" and "- 126 \<le> e"
  shows "float32_round x = of_int (round_half_even (x / pow2 (e - 23))) * pow2 (e - 23)"
  using binary_round_binade [OF assms, of 24] by (simp add: float32_round_def)

lemma float64_round_one_to_two:
  "1 \<le> x \<Longrightarrow> x < 2 \<Longrightarrow>
   float64_round x = of_int (round_half_even (x * 2 ^ 52)) / 2 ^ 52"
  using float64_round_binade [of 0 x] by (simp add: pow2_def)

lemma float64_small: "\<bar>x\<bar> \<le> 64 \<Longrightarrow> float64 x = Some (float64_round x)"
proof -
  assume "\<bar>x\<bar> \<le> 64"
  moreover have "(64 :: real) \<le> pow2 1000" by (simp add: pow2_def)
  ultimately show ?thesis by (intro float64_some) simp
qed

subsection \<open>Evaluating the roundings and the loop\<close>

lemma float64_round_half_to_one:
  "1 / 2 \<le> x \<Longrightarrow> x < 1 \<Longrightarrow>
   float64_round x = of_int (round_half_even (x * 2 ^ 53)) / 2 ^ 53"
  using float64_round_binade [of "- 1" x] by (simp add: pow2_def)

lemma float64_round_quarter_to_half:
  "1 / 4 \<le> x \<Longrightarrow> x < 1 / 2 \<Longrightarrow>
   float64_round x = of_int (round_half_even (x * 2 ^ 54)) / 2 ^ 54"
  using float64_round_binade [of "- 2" x] by (simp add: pow2_def)

lemma float64_round_binade_m20:
  "1 / 2 ^ 20 \<le> x \<Longrightarrow> x < 1 / 2 ^ 19 \<Longrightarrow>
   float64_round x = of_int (round_half_even (x * 2 ^ 72)) / 2 ^ 72"
  using float64_round_binade [of "- 20" x] by (simp add: pow2_def)

lemma float64_round_binade_m25:
  "1 / 2 ^ 25 \<le> x \<Longrightarrow> x < 1 / 2 ^ 24 \<Longrightarrow>
   float64_round x = of_int (round_half_even (x * 2 ^ 77)) / 2 ^ 77"
  using float64_round_binade [of "- 25" x] by (simp add: pow2_def)

lemma float32_round_half_to_one:
  "1 / 2 \<le> x \<Longrightarrow> x < 1 \<Longrightarrow>
   float32_round x = of_int (round_half_even (x * 2 ^ 24)) / 2 ^ 24"
  using float32_round_binade [of "- 1" x] by (simp add: pow2_def)

lemma float32_round_quarter_to_half:
  "1 / 4 \<le> x \<Longrightarrow> x < 1 / 2 \<Longrightarrow>
   float32_round x = of_int (round_half_even (x * 2 ^ 25)) / 2 ^ 25"
  using float32_round_binade [of "- 2" x] by (simp add: pow2_def)

lemma float32_round_binade_m20:
  "1 / 2 ^ 20 \<le> x \<Longrightarrow> x < 1 / 2 ^ 19 \<Longrightarrow>
   float32_round x = of_int (round_half_even (x * 2 ^ 43)) / 2 ^ 43"
  using float32_round_binade [of "- 20" x] by (simp add: pow2_def)

lemma math_fsum_small:
  "sum_list (map abs xs) \<le> 64 \<Longrightarrow> math_fsum xs = Some (float64_round (sum_list xs))"
proof -
  assume "sum_list (map abs xs) \<le> 64"
  moreover have "(64 :: real) \<le> pow2 1001" by (simp add: pow2_def)
  ultimately have "\<not> float64_max < sum_list (map abs xs)"
    using float64_max_ge by linarith
  then show ?thesis by (simp add: math_fsum_def)
qed

lemmas float_eval =
  to_gl_float_def pack_f_def float32_max_def float32_round_zero
  float32_round_half_to_one float32_round_quarter_to_half float32_round_binade_m20
  float64_small float64_round_zero float64_round_minus
  float64_round_one_to_two float64_round_half_to_one float64_round_quarter_to_half
  float64_round_binade_m20 float64_round_binade_m25
  py_sum_def math_fsum_small sum_error_def sum_is_one_def float_epsilon_def
  round_half_even_def Let_def

lemma refine_adopt_step:
  assumes "next_weights w = Returns nw" and "sum_error w = Some e"
    and "sum_error nw = Some ne" and "float_epsilon \<le> e" and "ne < e" and "0 < n"
  shows "refine n w = refine (n - 1) nw"
proof -
  from assms(6) obtain k where "n = Suc k" by (cases n) auto
  with assms(1-5) show ?thesis by simp
qed

lemma refine_stop_step:
  assumes "next_weights w = Returns nw" and "sum_error w = Some e"
    and "sum_error nw = Some ne" and "\<not> ne < e" and "0 < n"
  shows "refine n w = Returns w"
proof -
  from assms(5) obtain k where "n = Suc k" by (cases n) auto
  with assms(1-4) show ?thesis by simp
qed

subsection \<open>normalize\_weights\_compatible\_with\_gl\_float returns\<close>

text \<open>
  The claim C4 as stated lets the weights be any four floats, those summing to zero
  included. For four zeros the first test fails (the sum is 1 away from 1), the rounded
  weights are four zeros again, and the first division \<^verbatim>\<open>weights[0] / sum(weights)\<close>
  raises ZeroDivisionError.
\<close>

theorem normalize_zero_weights_counterexample:
  "normalize_weights_compatible_with_gl_float [0, 0, 0, 0] = Raises ZeroDivisionError"
proof -
  have s: "py_sum [0, 0, 0, 0] = Some 0"
    by (simp add: py_sum_def float64_zero)
  have "float64_round 1 = 1"
    using float64_round_one_to_two [of 1] by (simp add: round_half_even_def Let_def)
  then have "float64 (0 - 1) = Some (- 1)"
    using float64_small [of "- 1"] by (simp add: float64_round_minus)
  with s have t: "\<not> sum_is_one [0, 0, 0, 0]"
    by (simp add: sum_is_one_def float_epsilon_def)
  have g: "to_gl_float [0, 0, 0, 0] = Inr [0, 0, 0, 0]"
    by (simp add: to_gl_float_def pack_f_zero)
  have "next_weights [0, 0, 0, 0] = Raises ZeroDivisionError"
    using s by (simp add: next_weights_def)
  then have "refine 10 [0, 0, 0, 0] = Raises ZeroDivisionError"
    by (simp add: eval_nat_numeral)
  with t g show ?thesis
    by (simp add: normalize_weights_compatible_with_gl_float_def normalize_with_budget_def)
qed

text \<open>
  Claim C4, as the code has it. For four non-negative weights, none beyond the largest
  binary32 number, whose binary32 roundings are not all zero, the function returns a
  value and raises nothing: every iterate consists of non-negative binary32 numbers that
  are not all zero, so its rounded sum is positive and no division is by zero, and
  every rounded quotient is at most 32, so nothing overflows.
\<close>

theorem normalize_nonnegative_returns:
  assumes "0 \<le> a" "a \<le> float32_max" "0 \<le> b" "b \<le> float32_max"
    and "0 \<le> c" "c \<le> float32_max" "0 \<le> d" "d \<le> float32_max"
    and "float32_round a + float32_round b + float32_round c + float32_round d \<noteq> 0"
  shows "\<exists>r. normalize_weights_compatible_with_gl_float [a, b, c, d] = Returns r"
proof (cases "sum_is_one [a, b, c, d]")
  case True
  then show ?thesis
    by (simp add: normalize_weights_compatible_with_gl_float_def normalize_with_budget_def)
next
  case False
  let ?r = float32_round
  have nn: "0 \<le> ?r a" "0 \<le> ?r b" "0 \<le> ?r c" "0 \<le> ?r d"
    using assms by (simp_all add: float32_round_nonneg)
  with assms(9) have pos: "0 < ?r a + ?r b + ?r c + ?r d" by linarith
  have g: "to_gl_float [a, b, c, d] = Inr [?r a, ?r b, ?r c, ?r d]"
    using assms by (intro to_gl_float_four pack_f_in_range)
  have "\<exists>r. refine 10 [?r a, ?r b, ?r c, ?r d] = Returns r"
    using assms(1-8) pos
    by (intro refine_nonneg float32_round_pos_ge_ulp float32_round_le_max)
  with g False show ?thesis
    by (auto simp: normalize_weights_compatible_with_gl_float_def normalize_with_budget_def)
qed


theorem normalize_nonnegative_returns_witness:
  "(0 :: real) \<le> 1 / 2 \<and> 1 / 2 \<le> float32_max \<and> (0 :: real) \<le> 1 / 4 \<and> 1 / 4 \<le> float32_max
   \<and> 0 \<le> float32_max
   \<and> float32_round (1 / 2) + float32_round (1 / 4) + float32_round 0 + float32_round 0 \<noteq> 0
   \<and> (\<exists>r. normalize_weights_compatible_with_gl_float [1 / 2, 1 / 4, 0, 0] = Returns r)"
proof -
  have m: "(1 / 2 :: real) \<le> float32_max" "(1 / 4 :: real) \<le> float32_max" "0 \<le> float32_max"
    by (simp_all add: float32_max_def)
  have s: "float32_round (1 / 2) + float32_round (1 / 4) + float32_round 0
      + float32_round 0 \<noteq> 0"
    by (simp add: float_eval)
  from normalize_nonnegative_returns [of "1 / 2" "1 / 4" 0 0] m s
  show ?thesis by simp
qed

subsection \<open>Idempotence of normalize\_weights\_compatible\_with\_gl\_float\<close>

text \<open>
  The claim C5 as stated holds for every input on which the function returns. It fails
  when the loop uses up its ten iterations while each one still improves the sum. The
  weights below are binary32 numbers (about 0.6, 0.4 and 1.878e-06) whose sum exceeds 1
  by about 3.03e-08. In each iteration the two large weights round back to themselves
  and the small one loses one unit in its last place, which brings the sum a little
  closer to 1: the first call stops after ten such steps, and a second call on its result
  makes an eleventh step before leaving the loop.
\<close>

theorem normalize_not_idempotent_counterexample:
  "normalize_weights_compatible_with_gl_float
     [5033165 / 2 ^ 23, 6710855 / 2 ^ 24, 16519178 / 2 ^ 43, 0]
     = Returns [5033165 / 2 ^ 23, 6710855 / 2 ^ 24, 16519168 / 2 ^ 43, 0]
   \<and> normalize_weights_compatible_with_gl_float
     [5033165 / 2 ^ 23, 6710855 / 2 ^ 24, 16519168 / 2 ^ 43, 0]
     = Returns [5033165 / 2 ^ 23, 6710855 / 2 ^ 24, 16519167 / 2 ^ 43, 0]
   \<and> [5033165 / 2 ^ 23, 6710855 / 2 ^ 24, 16519167 / 2 ^ 43, 0 :: real]
     \<noteq> [5033165 / 2 ^ 23, 6710855 / 2 ^ 24, 16519168 / 2 ^ 43, 0]"
proof -
  let ?W = "\<lambda>m. [5033165 / 2 ^ 23, 6710855 / 2 ^ 24, m / 2 ^ 43, 0 :: real]"
  have e0: "sum_error (?W 16519178) = Some (266250 / 2 ^ 43)"
    by (simp add: float_eval)
  have e1: "sum_error (?W 16519177) = Some (266249 / 2 ^ 43)"
    by (simp add: float_eval)
  have e2: "sum_error (?W 16519176) = Some (266248 / 2 ^ 43)"
    by (simp add: float_eval)
  have e3: "sum_error (?W 16519175) = Some (266247 / 2 ^ 43)"
    by (simp add: float_eval)
  have e4: "sum_error (?W 16519174) = Some (266246 / 2 ^ 43)"
    by (simp add: float_eval)
  have e5: "sum_error (?W 16519173) = Some (266245 / 2 ^ 43)"
    by (simp add: float_eval)
  have e6: "sum_error (?W 16519172) = Some (266244 / 2 ^ 43)"
    by (simp add: float_eval)
  have e7: "sum_error (?W 16519171) = Some (266243 / 2 ^ 43)"
    by (simp add: float_eval)
  have e8: "sum_error (?W 16519170) = Some (266242 / 2 ^ 43)"
    by (simp add: float_eval)
  have e9: "sum_error (?W 16519169) = Some (266241 / 2 ^ 43)"
    by (simp add: float_eval)
  have e10: "sum_error (?W 16519168) = Some (266240 / 2 ^ 43)"
    by (simp add: float_eval)
  have e11: "sum_error (?W 16519167) = Some (266239 / 2 ^ 43)"
    by (simp add: float_eval)
  have s0: "next_weights (?W 16519178) = Returns (?W 16519177)"
    by (simp add: next_weights_def float_eval)
  have c0: "refine 10 (?W 16519178) = refine 9 (?W 16519177)"
    using refine_adopt_step [OF s0 e0 e1, of 10] by (simp add: float_epsilon_def)
  have s1: "next_weights (?W 16519177) = Returns (?W 16519176)"
    by (simp add: next_weights_def float_eval)
  have c1: "refine 9 (?W 16519177) = refine 8 (?W 16519176)"
    using refine_adopt_step [OF s1 e1 e2, of 9] by (simp add: float_epsilon_def)
  have s2: "next_weights (?W 16519176) = Returns (?W 16519175)"
    by (simp add: next_weights_def float_eval)
  have c2: "refine 8 (?W 16519176) = refine 7 (?W 16519175)"
    using refine_adopt_step [OF s2 e2 e3, of 8] by (simp add: float_epsilon_def)
  have s3: "next_weights (?W 16519175) = Returns (?W 16519174)"
    by (simp add: next_weights_def float_eval)
  have c3: "refine 7 (?W 16519175) = refine 6 (?W 16519174)"
    using refine_adopt_step [OF s3 e3 e4, of 7] by (simp add: float_epsilon_def)
  have s4: "next_weights (?W 16519174) = Returns (?W 16519173)"
    by (simp add: next_weights_def float_eval)
  have c4: "refine 6 (?W 16519174) = refine 5 (?W 16519173)"
    using refine_adopt_step [OF s4 e4 e5, of 6] by (simp add: float_epsilon_def)
  have s5: "next_weights (?W 16519173) = Returns (?W 16519172)"
    by (simp add: next_weights_def float_eval)
  have c5: "refine 5 (?W 16519173) = refine 4 (?W 16519172)"
    using refine_adopt_step [OF s5 e5 e6, of 5] by (simp add: float_epsilon_def)
  have s6: "next_weights (?W 16519172) = Returns (?W 16519171)"
    by (simp add: next_weights_def float_eval)
  have c6: "refine 4 (?W 16519172) = refine 3 (?W 16519171)"
    using refine_adopt_step [OF s6 e6 e7, of 4] by (simp add: float_epsilon_def)
  have s7: "next_weights (?W 16519171) = Returns (?W 16519170)"
    by (simp add: next_weights_def float_eval)
  have c7: "refine 3 (?W 16519171) = refine 2 (?W 16519170)"
    using refine_adopt_step [OF s7 e7 e8, of 3] by (simp add: float_epsilon_def)
  have s8: "next_weights (?W 16519170) = Returns (?W 16519169)"
    by (simp add: next_weights_def float_eval)
  have c8: "refine 2 (?W 16519170) = refine 1 (?W 16519169)"
    using refine_adopt_step [OF s8 e8 e9, of 2] by (simp add: float_epsilon_def)
  have s9: "next_weights (?W 16519169) = Returns (?W 16519168)"
    by (simp add: next_weights_def float_eval)
  have c9: "refine 1 (?W 16519169) = refine 0 (?W 16519168)"
    using refine_adopt_step [OF s9 e9 e10, of 1] by (simp add: float_epsilon_def)
  have first: "refine 10 (?W 16519178) = Returns (?W 16519168)"
    by (simp only: c0 c1 c2 c3 c4 c5 c6 c7 c8 c9 refine.simps(1))
  have s10: "next_weights (?W 16519168) = Returns (?W 16519167)"
    by (simp add: next_weights_def float_eval)
  have c10: "refine 10 (?W 16519168) = refine 9 (?W 16519167)"
    using refine_adopt_step [OF s10 e10 e11, of 10] by (simp add: float_epsilon_def)
  have s11: "next_weights (?W 16519167) = Returns (?W 16519167)"
    by (simp add: next_weights_def float_eval)
  have "refine 9 (?W 16519167) = Returns (?W 16519167)"
    using refine_stop_step [OF s11 e11 e11, of 9] by simp
  with c10 have second: "refine 10 (?W 16519168) = Returns (?W 16519167)" by simp
  have g0: "to_gl_float (?W 16519178) = Inr (?W 16519178)"
    by (simp add: float_eval)
  have g1: "to_gl_float (?W 16519168) = Inr (?W 16519168)"
    by (simp add: float_eval)
  have t0: "\<not> sum_is_one (?W 16519178)"
    by (simp add: float_eval)
  have t1: "\<not> sum_is_one (?W 16519168)"
    by (simp add: float_eval)
  have "normalize_with_budget 10 (?W 16519178) = Returns (?W 16519168)"
    using first g0 t0 by (simp add: normalize_with_budget_def)
  moreover have "normalize_with_budget 10 (?W 16519168) = Returns (?W 16519167)"
    using second g1 t1 by (simp add: normalize_with_budget_def)
  ultimately show ?thesis
    by (simp add: normalize_weights_compatible_with_gl_float_def)
qed

text \<open>A value that \<^verbatim>\<open>to_gl_float\<close> returns is left unchanged by \<^verbatim>\<open>to_gl_float\<close>.\<close>

lemma next_weights_fixed: "next_weights w = Returns nw \<Longrightarrow> to_gl_float nw = Inr nw"
  by (auto simp: next_weights_def to_gl_float_idem split: if_splits option.splits sum.splits)

lemma refine_fixed:
  "refine n w = Returns r \<Longrightarrow> to_gl_float w = Inr w \<Longrightarrow> to_gl_float r = Inr r"
proof (induction n arbitrary: w)
  case 0
  then show ?case by simp
next
  case (Suc n)
  from Suc.prems(1) obtain nw e ne where nw: "next_weights w = Returns nw"
    and e: "sum_error w = Some e" and ne: "sum_error nw = Some ne"
    by (auto split: outcome.splits option.splits)
  show ?case
  proof (cases "float_epsilon \<le> e \<and> ne < e")
    case True
    with Suc.prems(1) nw e ne have "refine n nw = Returns r" by simp
    then show ?thesis using next_weights_fixed [OF nw] by (rule Suc.IH)
  next
    case False
    with Suc.prems(1) nw e ne have "r = w" by auto
    with Suc.prems(2) show ?thesis by simp
  qed
qed

lemma refine_stable:
  "refine (Suc n) w = Returns r \<Longrightarrow> refine n w = Returns r \<Longrightarrow> refine (Suc k) r = Returns r"
proof (induction n arbitrary: w)
  case 0
  then have rw: "r = w" by simp
  from "0.prems"(1) obtain nw e ne where nw: "next_weights w = Returns nw"
    and e: "sum_error w = Some e" and ne: "sum_error nw = Some ne"
    by (auto split: outcome.splits option.splits)
  show ?case
  proof (cases "float_epsilon \<le> e \<and> ne < e")
    case True
    with "0.prems"(1) nw e ne have "nw = r" by simp
    with True rw e ne show ?thesis by simp
  next
    case False
    with nw e ne rw show ?thesis by auto
  qed
next
  case (Suc n)
  from Suc.prems(1) obtain nw e ne where nw: "next_weights w = Returns nw"
    and e: "sum_error w = Some e" and ne: "sum_error nw = Some ne"
    by (auto split: outcome.splits option.splits)
  show ?case
  proof (cases "float_epsilon \<le> e \<and> ne < e")
    case True
    with Suc.prems nw e ne have "refine (Suc n) nw = Returns r" "refine n nw = Returns r"
      by simp_all
    then show ?thesis by (rule Suc.IH)
  next
    case False
    with Suc.prems(1) nw e ne have "r = w" by auto
    with False nw e ne show ?thesis by auto
  qed
qed

text \<open>
  Claim C5, as the code has it. When the function returns \<open>r\<close> and the loop did not need
  its tenth iteration (nine iterations give the same \<open>r\<close>), the function returns \<open>r\<close>
  again on \<open>r\<close>, each component being the same real number and so the same float.
\<close>

theorem normalize_idempotent_when_converged:
  assumes "normalize_weights_compatible_with_gl_float w = Returns r"
    and "normalize_with_budget 9 w = Returns r"
  shows "normalize_weights_compatible_with_gl_float r = Returns r"
proof (cases "sum_is_one w")
  case True
  with assms(1) have "r = w"
    by (simp add: normalize_weights_compatible_with_gl_float_def normalize_with_budget_def)
  with True show ?thesis
    by (simp add: normalize_weights_compatible_with_gl_float_def normalize_with_budget_def)
next
  case False
  with assms obtain w1 where g: "to_gl_float w = Inr w1"
    and r10: "refine 10 w1 = Returns r" and r9: "refine 9 w1 = Returns r"
    by (auto simp: normalize_weights_compatible_with_gl_float_def normalize_with_budget_def
        split: sum.splits)
  have fixed: "to_gl_float r = Inr r"
    using r9 to_gl_float_idem [OF g] by (rule refine_fixed)
  have "refine (Suc 9) w1 = Returns r" using r10 by (simp add: eval_nat_numeral)
  from refine_stable [OF this r9, of 9] have "refine 10 r = Returns r"
    by (simp add: eval_nat_numeral)
  with fixed show ?thesis
    by (simp add: normalize_weights_compatible_with_gl_float_def normalize_with_budget_def)
qed

theorem normalize_idempotent_when_converged_witness:
  "normalize_weights_compatible_with_gl_float [1 / 2, 1 / 4, 0, 0]
     = Returns [11184811 / 2 ^ 24, 11184811 / 2 ^ 25, 0, 0]
   \<and> normalize_with_budget 9 [1 / 2, 1 / 4, 0, 0]
     = Returns [11184811 / 2 ^ 24, 11184811 / 2 ^ 25, 0, 0]
   \<and> normalize_weights_compatible_with_gl_float [11184811 / 2 ^ 24, 11184811 / 2 ^ 25, 0, 0]
     = Returns [11184811 / 2 ^ 24, 11184811 / 2 ^ 25, 0, 0]"
proof -
  let ?w = "[1 / 2, 1 / 4, 0, 0 :: real]"
  let ?r = "[11184811 / 2 ^ 24, 11184811 / 2 ^ 25, 0, 0 :: real]"
  have t: "\<not> sum_is_one ?w"
    by (simp add: float_eval)
  have g: "to_gl_float ?w = Inr ?w"
    by (simp add: float_eval)
  have s0: "next_weights ?w = Returns ?r"
    by (simp add: next_weights_def float_eval)
  have s1: "next_weights ?r = Returns ?r"
    by (simp add: next_weights_def float_eval)
  have e0: "sum_error ?w = Some (1 / 4)"
    by (simp add: float_eval)
  have e1: "sum_error ?r = Some (1 / 2 ^ 25)"
    by (simp add: float_eval)
  have a10: "refine 10 ?w = refine 9 ?r"
    using refine_adopt_step [OF s0 e0 e1, of 10] by (simp add: float_epsilon_def)
  have a9: "refine 9 ?w = refine 8 ?r"
    using refine_adopt_step [OF s0 e0 e1, of 9] by (simp add: float_epsilon_def)
  have b9: "refine 9 ?r = Returns ?r"
    using refine_stop_step [OF s1 e1 e1, of 9] by simp
  have b8: "refine 8 ?r = Returns ?r"
    using refine_stop_step [OF s1 e1 e1, of 8] by simp
  have n10: "normalize_weights_compatible_with_gl_float ?w = Returns ?r"
    using t g a10 b9
    by (simp add: normalize_weights_compatible_with_gl_float_def normalize_with_budget_def)
  have n9: "normalize_with_budget 9 ?w = Returns ?r"
    using t g a9 b8 by (simp add: normalize_with_budget_def)
  from normalize_idempotent_when_converged [OF n10 n9] n10 n9 show ?thesis by simp
qed

subsection \<open>The loop stays within the finite floats\<close>

text \<open>
  A multiple \<open>k\<close> of \<open>pow2 j\<close> with \<open>k\<close> below \<open>2\<close> to the power \<open>p\<close> is a number of the
  format, when \<open>pow2 j\<close> is not below the smallest subnormal number.
\<close>

lemma binary_round_representable:
  assumes "0 < k" and "of_int k < pow2 (int p)" and "emin - (int p - 1) \<le> j"
  shows "binary_round p emin (of_int k * pow2 j) = of_int k * pow2 j"
proof -
  define x where "x = of_int k * pow2 j"
  define e where "e = binary_exponent emin x"
  define t where "t = j + (int p - 1) - e"
  have pos: "0 < x" using assms(1) pow2_pos [of j] by (simp add: x_def)
  have "x < pow2 (int p) * pow2 j"
    unfolding x_def using assms(2) pow2_pos [of j] by (simp add: mult_strict_right_mono)
  then have "x < pow2 ((j + (int p - 1)) + 1)"
    using pow2_add [of "int p" j] by (simp add: algebra_simps)
  then have "e \<le> j + (int p - 1)"
    unfolding e_def using assms(3) by (intro binary_exponent_le [OF pos]) simp_all
  then have t: "0 \<le> t" by (simp add: t_def)
  have u: "binary_ulp p emin x = pow2 (e - (int p - 1))" by (simp add: binary_ulp_def e_def)
  have j: "pow2 j = pow2 t * pow2 (e - (int p - 1))"
    using pow2_add [of t "e - (int p - 1)"] by (simp add: t_def)
  have xe: "x = of_int k * pow2 t * pow2 (e - (int p - 1))"
    unfolding x_def by (simp only: j mult.assoc)
  have "x / binary_ulp p emin x = x / pow2 (e - (int p - 1))" by (simp only: u)
  also have "\<dots> = of_int k * pow2 t"
    using pow2_pos [of "e - (int p - 1)"] by (subst xe) simp
  also have "\<dots> = of_int (k * 2 ^ nat t)" using t by (simp add: pow2_nat)
  finally have "round_half_even (x / binary_ulp p emin x) = k * 2 ^ nat t"
    by (simp only: rhe_of_int)
  then have "binary_round p emin x = of_int (k * 2 ^ nat t) * pow2 (e - (int p - 1))"
    using pos by (simp add: binary_round_pos_eq u)
  also have "\<dots> = of_int k * (pow2 t * pow2 (e - (int p - 1)))"
    using t by (simp add: pow2_nat)
  also have "\<dots> = x" by (simp only: j [symmetric] x_def)
  finally show ?thesis by (simp only: x_def)
qed

text \<open>The binary32 numbers are multiples of \<open>pow2 (- 149)\<close>, and so are their binary64 sums.\<close>

lemma float32_round_grid: "\<exists>k. float32_round x = of_int k * pow2 (- 149)"
proof -
  have pos: "\<exists>k. float32_round y = of_int k * pow2 (- 149)" if "0 < y" for y
  proof -
    define e where "e = binary_exponent (- 126) y"
    define m where "m = round_half_even (y / binary_ulp 24 (- 126) y)"
    have e: "- 126 \<le> e" unfolding e_def by (rule binary_exponent_ge)
    have r: "float32_round y = of_int m * pow2 (e - 23)"
      using that by (simp add: float32_round_def binary_round_pos_eq binary_ulp_def e_def m_def)
    have "pow2 (e - 23) = pow2 (e + 126) * pow2 (- 149)"
      using pow2_add [of "e + 126" "- 149"] by simp
    also have "pow2 (e + 126) = of_int (2 ^ nat (e + 126))"
      using e by (simp add: pow2_nat)
    finally have "float32_round y = of_int (m * 2 ^ nat (e + 126)) * pow2 (- 149)"
      using r by simp
    then show ?thesis by blast
  qed
  consider "x = 0" | "0 < x" | "x < 0" by linarith
  then show ?thesis
  proof cases
    case 1
    have "float32_round 0 = of_int 0 * pow2 (- 149)" by (simp add: float32_round_zero)
    with 1 show ?thesis by blast
  next
    case 2
    then show ?thesis by (rule pos)
  next
    case 3
    then have "0 < - x" by simp
    from pos [OF this] obtain k where "float32_round (- x) = of_int k * pow2 (- 149)" by blast
    then have "float32_round x = of_int (- k) * pow2 (- 149)"
      by (simp add: float32_round_def binary_round_minus)
    then show ?thesis by blast
  qed
qed

lemma float64_round_grid:
  "\<exists>k'. float64_round (of_int k * pow2 (- 149)) = of_int k' * pow2 (- 149)"
proof -
  have pos: "\<exists>k'. float64_round (of_int n * pow2 (- 149)) = of_int k' * pow2 (- 149)"
    if "0 < n" for n :: int
  proof -
    define y where "y = of_int n * pow2 (- 149)"
    define e where "e = binary_exponent (- 1022) y"
    have ypos: "0 < y" using that pow2_pos [of "- 149"] by (simp add: y_def)
    show ?thesis
    proof (cases "- 97 \<le> e")
      case True
      define m where "m = round_half_even (y / binary_ulp 53 (- 1022) y)"
      have r: "float64_round y = of_int m * pow2 (e - 52)"
        using ypos
        by (simp add: float64_round_def binary_round_pos_eq binary_ulp_def e_def m_def)
      have "pow2 (e - 52) = pow2 (e + 97) * pow2 (- 149)"
        using pow2_add [of "e + 97" "- 149"] by simp
      also have "pow2 (e + 97) = of_int (2 ^ nat (e + 97))"
        using True by (simp add: pow2_nat)
      finally have "float64_round y = of_int (m * 2 ^ nat (e + 97)) * pow2 (- 149)"
        using r by simp
      then show ?thesis unfolding y_def by blast
    next
      case False
      then have "e + 1 \<le> - 96" by simp
      then have "pow2 (e + 1) \<le> pow2 (- 96)" by (simp only: pow2_le_iff)
      with binary_lt_next_binade [OF ypos, of "- 1022"] have "y < pow2 (- 96)"
        by (simp add: e_def)
      also have "pow2 (- 96) = pow2 53 * pow2 (- 149)"
        using pow2_add [of 53 "- 149"] by simp
      finally have "of_int n < pow2 53"
        unfolding y_def using pow2_pos [of "- 149"] by simp
      then have "of_int n < pow2 (int 53)" by simp
      from binary_round_representable [OF that this, of "- 1022" "- 149"]
      have "float64_round (of_int n * pow2 (- 149)) = of_int n * pow2 (- 149)"
        by (simp add: float64_round_def)
      then show ?thesis by blast
    qed
  qed
  consider "k = 0" | "0 < k" | "k < 0" by linarith
  then show ?thesis
  proof cases
    case 1
    have "float64_round 0 = of_int 0 * pow2 (- 149)" by (simp add: float64_round_zero)
    with 1 show ?thesis by (metis mult_zero_left of_int_0)
  next
    case 2
    then show ?thesis by (rule pos)
  next
    case 3
    then have "0 < - k" by simp
    from pos [OF this] obtain k' where
      "float64_round (of_int (- k) * pow2 (- 149)) = of_int k' * pow2 (- 149)" by blast
    then have "float64_round (of_int k * pow2 (- 149)) = of_int (- k') * pow2 (- 149)"
      by (simp add: float64_round_minus)
    then show ?thesis by blast
  qed
qed

lemma float64_round_abs_le: "\<bar>float64_round x\<bar> \<le> 2 * \<bar>x\<bar>"
proof -
  have "\<bar>float64_round x\<bar> = float64_round \<bar>x\<bar>"
    by (simp add: float64_round_def binary_round_abs)
  also have "\<dots> \<le> 2 * \<bar>x\<bar>"
    using binary_round_le_double [of "\<bar>x\<bar>" 53 "- 1022"] by (simp add: float64_round_def)
  finally show ?thesis .
qed

text \<open>One addition of \<^verbatim>\<open>sum\<close> on multiples of \<open>pow2 (- 149)\<close>.\<close>

lemma grid_add_step:
  assumes "\<bar>acc\<bar> \<le> B" and "\<bar>x\<bar> \<le> float32_max" and "B \<le> 14 * float32_max"
    and "\<exists>k. acc = of_int k * pow2 (- 149)" and "\<exists>k. x = of_int k * pow2 (- 149)"
  shows "float64 (acc + x) = Some (float64_round (acc + x))"
    and "\<bar>float64_round (acc + x)\<bar> \<le> 2 * (B + float32_max)"
    and "\<exists>k. float64_round (acc + x) = of_int k * pow2 (- 149)"
    and "\<exists>k. acc + x = of_int k * pow2 (- 149)"
proof -
  have b: "\<bar>acc + x\<bar> \<le> B + float32_max" using assms(1,2) by linarith
  moreover have "15 * float32_max \<le> pow2 1000" using float32_max_bound by linarith
  ultimately have "\<bar>acc + x\<bar> \<le> pow2 1000" using assms(3) by linarith
  then show "float64 (acc + x) = Some (float64_round (acc + x))" by (rule float64_some)
  from float64_round_abs_le [of "acc + x"] b
  show "\<bar>float64_round (acc + x)\<bar> \<le> 2 * (B + float32_max)" by argo
  from assms(4,5) obtain k1 k2 where "acc = of_int k1 * pow2 (- 149)"
    "x = of_int k2 * pow2 (- 149)" by blast
  then have g: "acc + x = of_int (k1 + k2) * pow2 (- 149)" by (simp add: algebra_simps)
  then show "\<exists>k. acc + x = of_int k * pow2 (- 149)" by blast
  from g float64_round_grid [of "k1 + k2"]
  show "\<exists>k. float64_round (acc + x) = of_int k * pow2 (- 149)" by simp
qed

lemma grid_nonzero:
  assumes "y = of_int k * pow2 (- 149)" and "y \<noteq> 0"
  shows "pow2 (- 149) \<le> \<bar>y\<bar>"
proof -
  from assms have "k \<noteq> 0" by auto
  then have "1 \<le> \<bar>k\<bar>" by linarith
  then have "(1 :: real) \<le> \<bar>of_int k\<bar>" by (metis of_int_1_le_iff of_int_abs)
  then have "1 * pow2 (- 149) \<le> \<bar>of_int k\<bar> * pow2 (- 149)"
    using pow2_pos [of "- 149"] by (simp only: mult_right_mono less_imp_le)
  with assms(1) pow2_pos [of "- 149"] show ?thesis by (simp add: abs_mult)
qed

lemma next_weights_modelled:
  assumes "\<bar>a\<bar> \<le> float32_max" and "\<exists>k. a = of_int k * pow2 (- 149)"
    and "\<bar>b\<bar> \<le> float32_max" and "\<exists>k. b = of_int k * pow2 (- 149)"
    and "\<bar>c\<bar> \<le> float32_max" and "\<exists>k. c = of_int k * pow2 (- 149)"
    and "\<bar>d\<bar> \<le> float32_max" and "\<exists>k. d = of_int k * pow2 (- 149)"
  shows "next_weights [a, b, c, d] \<noteq> Not_modelled"
proof -
  have F: "0 \<le> float32_max" by (rule float32_max_bound)
  have z: "\<exists>k. (0 :: real) = of_int k * pow2 (- 149)" by (rule exI [of _ 0]) simp
  define s1 where "s1 = float64_round (0 + a)"
  have "\<bar>0 :: real\<bar> \<le> 0" "(0 :: real) \<le> 14 * float32_max" using F by simp_all
  note st1 = grid_add_step [OF this(1) assms(1) this(2) z assms(2), folded s1_def]
  define s2 where "s2 = float64_round (s1 + b)"
  have b1: "\<bar>s1\<bar> \<le> 2 * float32_max" "2 * float32_max \<le> 14 * float32_max"
    using st1(2) F by simp_all
  note st2 = grid_add_step [OF b1(1) assms(3) b1(2) st1(3) assms(4), folded s2_def]
  define s3 where "s3 = float64_round (s2 + c)"
  have b2: "\<bar>s2\<bar> \<le> 6 * float32_max" "6 * float32_max \<le> 14 * float32_max"
    using st2(2) F by simp_all
  note st3 = grid_add_step [OF b2(1) assms(5) b2(2) st2(3) assms(6), folded s3_def]
  define s4 where "s4 = float64_round (s3 + d)"
  have b3: "\<bar>s3\<bar> \<le> 14 * float32_max" "14 * float32_max \<le> 14 * float32_max"
    using st3(2) F by simp_all
  note st4 = grid_add_step [OF b3(1) assms(7) b3(2) st3(3) assms(8), folded s4_def]
  have s: "py_sum [a, b, c, d] = Some s4"
    using st1(1) st2(1) st3(1) st4(1) by (simp add: py_sum_def)
  show ?thesis
  proof (cases "s4 = 0")
    case True
    with s show ?thesis by (simp add: next_weights_def)
  next
    case False
    then have "s3 + d \<noteq> 0" by (auto simp: s4_def float64_round_zero)
    moreover from st4(4) obtain k where "s3 + d = of_int k * pow2 (- 149)" by blast
    ultimately have "pow2 (- 149) \<le> \<bar>s3 + d\<bar>" by (intro grid_nonzero)
    then have "pow2 (- 149) \<le> float64_round \<bar>s3 + d\<bar>"
      using binary_round_ge_pow2 [of "- 149" "\<bar>s3 + d\<bar>" "- 1022" 53]
      by (simp add: float64_round_def)
    then have low: "pow2 (- 149) \<le> \<bar>s4\<bar>"
      by (simp add: s4_def float64_round_def binary_round_abs)
    have q: "float64 (v / s4) = Some (float64_round (v / s4))" if "\<bar>v\<bar> \<le> float32_max" for v
    proof (rule float64_some)
      have s4pos: "0 < \<bar>s4\<bar>" using False by simp
      have "\<bar>v\<bar> \<le> pow2 128" using that float32_max_lt by linarith
      also have "pow2 128 = pow2 277 * pow2 (- 149)" using pow2_add [of 277 "- 149"] by simp
      also have "\<dots> \<le> pow2 277 * \<bar>s4\<bar>"
        using low pow2_pos [of 277] by (simp only: mult_left_mono less_imp_le)
      finally have "\<bar>v\<bar> / \<bar>s4\<bar> \<le> pow2 277" using s4pos by (simp add: pos_divide_le_eq)
      moreover have "pow2 277 \<le> pow2 1000" by (simp add: pow2_le_iff)
      ultimately show "\<bar>v / s4\<bar> \<le> pow2 1000" by (simp add: abs_divide)
    qed
    from s False q [OF assms(1)] q [OF assms(3)] q [OF assms(5)] q [OF assms(7)]
    show ?thesis by (simp add: next_weights_def split: sum.splits)
  qed
qed

lemma sum_error_modelled:
  assumes "\<bar>a\<bar> \<le> float32_max" "\<bar>b\<bar> \<le> float32_max" "\<bar>c\<bar> \<le> float32_max"
    "\<bar>d\<bar> \<le> float32_max"
  shows "\<exists>e. sum_error [a, b, c, d] = Some e"
proof -
  define t where "t = a + b + c + d"
  define M where "M = pow2 1000"
  have M: "80 * float32_max \<le> M" "2 * M \<le> float64_max" "0 \<le> float32_max"
    using float32_max_bound float64_max_ge pow2_add [of 1 1000]
    by (simp_all add: M_def pow2_def [of 1])
  have t: "\<bar>t\<bar> \<le> 4 * float32_max" using assms by (simp add: t_def)
  have "sum_list (map abs [a, b, c, d]) \<le> 4 * float32_max" using assms by simp
  then have "\<not> float64_max < sum_list (map abs [a, b, c, d])" using M by linarith
  moreover have "sum_list [a, b, c, d] = t" by (simp add: t_def add.assoc)
  ultimately have f: "math_fsum [a, b, c, d] = Some (float64_round t)"
    by (simp only: math_fsum_def if_False)
  define r where "r = float64_round t"
  have "\<bar>r\<bar> \<le> 2 * \<bar>t\<bar>" unfolding r_def by (rule float64_round_abs_le)
  moreover have "(1 :: real) \<le> float32_max" by (simp add: float32_max_def)
  ultimately have "\<bar>1 - r\<bar> \<le> M" using t M by linarith
  then have "float64 (1 - r) = Some (float64_round (1 - r))"
    unfolding M_def by (rule float64_some)
  with f show ?thesis by (simp add: sum_error_def r_def)
qed

lemma pack_f_grid:
  assumes "pack_f x = Inr y"
  shows "\<bar>y\<bar> \<le> float32_max \<and> (\<exists>k. y = of_int k * pow2 (- 149))"
proof -
  from assms have y: "y = float32_round x" and le: "\<not> float32_max < \<bar>float32_round x\<bar>"
    by (auto simp: pack_f_def split: if_splits)
  from float32_round_grid [of x] y have "\<exists>k. y = of_int k * pow2 (- 149)" by simp
  with y le show ?thesis by simp
qed

lemma pack_all_grid:
  "pack_all xs = Inr ys \<Longrightarrow>
   \<forall>y\<in>set ys. \<bar>y\<bar> \<le> float32_max \<and> (\<exists>k. y = of_int k * pow2 (- 149))"
proof (induction xs arbitrary: ys)
  case Nil
  then show ?case by simp
next
  case (Cons x xs)
  then show ?case
    by (auto split: sum.splits dest: pack_f_grid)
qed

lemma to_gl_float_grid:
  assumes "to_gl_float v = Inr w"
  shows "\<exists>a b c d. w = [a, b, c, d]
           \<and> \<bar>a\<bar> \<le> float32_max \<and> (\<exists>k. a = of_int k * pow2 (- 149))
           \<and> \<bar>b\<bar> \<le> float32_max \<and> (\<exists>k. b = of_int k * pow2 (- 149))
           \<and> \<bar>c\<bar> \<le> float32_max \<and> (\<exists>k. c = of_int k * pow2 (- 149))
           \<and> \<bar>d\<bar> \<le> float32_max \<and> (\<exists>k. d = of_int k * pow2 (- 149))"
proof -
  from assms have p: "pack_all v = Inr w" and l: "length v = 4"
    by (auto simp: to_gl_float_def split: if_splits)
  from pack_all_length [OF p] l have "length w = 4" by simp
  then obtain a b c d where w: "w = [a, b, c, d]"
    by (auto simp: length_Suc_conv eval_nat_numeral)
  from pack_all_grid [OF p] w show ?thesis by auto
qed

lemma next_weights_grid:
  "next_weights w = Returns nw \<Longrightarrow> \<exists>v. to_gl_float v = Inr nw"
  by (auto simp: next_weights_def split: if_splits option.splits sum.splits)

lemma refine_modelled:
  "to_gl_float v = Inr w \<Longrightarrow> refine n w \<noteq> Not_modelled"
proof (induction n arbitrary: v w)
  case 0
  then show ?case by simp
next
  case (Suc n)
  from to_gl_float_grid [OF Suc.prems] obtain a b c d where w: "w = [a, b, c, d]"
    and g: "\<bar>a\<bar> \<le> float32_max" "\<exists>k. a = of_int k * pow2 (- 149)"
      "\<bar>b\<bar> \<le> float32_max" "\<exists>k. b = of_int k * pow2 (- 149)"
      "\<bar>c\<bar> \<le> float32_max" "\<exists>k. c = of_int k * pow2 (- 149)"
      "\<bar>d\<bar> \<le> float32_max" "\<exists>k. d = of_int k * pow2 (- 149)"
    by blast
  from next_weights_modelled [OF g] w have m: "next_weights w \<noteq> Not_modelled" by simp
  from sum_error_modelled [OF g(1,3,5,7)] w obtain e where e: "sum_error w = Some e" by auto
  show ?case
  proof (cases "next_weights w")
    case (Returns nw)
    from next_weights_grid [OF this] obtain v' where v': "to_gl_float v' = Inr nw" by blast
    from to_gl_float_grid [OF v'] obtain a' b' c' d' where nw: "nw = [a', b', c', d']"
      and g': "\<bar>a'\<bar> \<le> float32_max" "\<bar>b'\<bar> \<le> float32_max" "\<bar>c'\<bar> \<le> float32_max"
        "\<bar>d'\<bar> \<le> float32_max"
      by blast
    from sum_error_modelled [OF g'] nw obtain e' where e': "sum_error nw = Some e'" by auto
    from Suc.IH [OF v'] Returns e e' show ?thesis by simp
  next
    case (Raises x)
    then show ?thesis by simp
  next
    case Not_modelled
    with m show ?thesis by simp
  qed
qed

lemma normalize_modelled: "normalize_with_budget n w \<noteq> Not_modelled"
  by (auto simp: normalize_with_budget_def refine_modelled split: sum.splits)

subsection \<open>Two inputs on which the binary64 roundings decide\<close>

lemma float32_round_minus: "float32_round (- x) = - float32_round x"
  by (simp add: float32_round_def binary_round_minus)

lemma float64_round_binade_m3:
  "1 / 8 \<le> x \<Longrightarrow> x < 1 / 4 \<Longrightarrow>
   float64_round x = of_int (round_half_even (x * 2 ^ 55)) / 2 ^ 55"
  using float64_round_binade [of "- 3" x] by (simp add: pow2_def)

lemma float64_round_binade_m4:
  "1 / 16 \<le> x \<Longrightarrow> x < 1 / 8 \<Longrightarrow>
   float64_round x = of_int (round_half_even (x * 2 ^ 56)) / 2 ^ 56"
  using float64_round_binade [of "- 4" x] by (simp add: pow2_def)

lemma float64_round_binade_m26:
  "1 / 2 ^ 26 \<le> x \<Longrightarrow> x < 1 / 2 ^ 25 \<Longrightarrow>
   float64_round x = of_int (round_half_even (x * 2 ^ 78)) / 2 ^ 78"
  using float64_round_binade [of "- 26" x] by (simp add: pow2_def)

lemma float64_round_binade_m52:
  "1 / 2 ^ 52 \<le> x \<Longrightarrow> x < 1 / 2 ^ 51 \<Longrightarrow>
   float64_round x = of_int (round_half_even (x * 2 ^ 104)) / 2 ^ 104"
  using float64_round_binade [of "- 52" x] by (simp add: pow2_def)

lemma float64_round_binade_53:
  "2 ^ 53 \<le> x \<Longrightarrow> x < 2 ^ 54 \<Longrightarrow>
   float64_round x = of_int (round_half_even (x / 2)) * 2"
  using float64_round_binade [of 53 x] by (simp add: pow2_def)

lemma float32_round_binade_m3:
  "1 / 8 \<le> x \<Longrightarrow> x < 1 / 4 \<Longrightarrow>
   float32_round x = of_int (round_half_even (x * 2 ^ 26)) / 2 ^ 26"
  using float32_round_binade [of "- 3" x] by (simp add: pow2_def)

lemma float32_round_binade_m4:
  "1 / 16 \<le> x \<Longrightarrow> x < 1 / 8 \<Longrightarrow>
   float32_round x = of_int (round_half_even (x * 2 ^ 27)) / 2 ^ 27"
  using float32_round_binade [of "- 4" x] by (simp add: pow2_def)

lemma float32_round_one_to_two:
  "1 \<le> x \<Longrightarrow> x < 2 \<Longrightarrow>
   float32_round x = of_int (round_half_even (x * 2 ^ 23)) / 2 ^ 23"
  using float32_round_binade [of 0 x] by (simp add: pow2_def)

lemma float32_round_binade_53:
  "2 ^ 53 \<le> x \<Longrightarrow> x < 2 ^ 54 \<Longrightarrow>
   float32_round x = of_int (round_half_even (x / 2 ^ 30)) * 2 ^ 30"
  using float32_round_binade [of 53 x] by (simp add: pow2_def)

lemma float64_large: "\<bar>x\<bar> \<le> 2 ^ 60 \<Longrightarrow> float64 x = Some (float64_round x)"
proof -
  assume "\<bar>x\<bar> \<le> 2 ^ 60"
  moreover have "(2 ^ 60 :: real) \<le> pow2 1000" by (simp add: pow2_def)
  ultimately show ?thesis by (intro float64_some) simp
qed

lemmas float_eval_more =
  float32_round_minus float64_large
  float64_round_binade_m3 float64_round_binade_m4 float64_round_binade_m26
  float64_round_binade_m52 float64_round_binade_53
  float32_round_binade_m3 float32_round_binade_m4 float32_round_one_to_two
  float32_round_binade_53

text \<open>
  The floats \<^verbatim>\<open>0.2, 0.4, 0.3, 0.1\<close>: added from left to right in binary64 they give
  \<open>1 + 1 / 2 ^ 52\<close>, which is not within \<^verbatim>\<open>epsilon\<close> of 1, so the function does not return
  them as they are but their binary32 roundings.
\<close>

lemma normalize_tenths:
  "normalize_weights_compatible_with_gl_float
     [3602879701896397 / 2 ^ 54, 3602879701896397 / 2 ^ 53, 5404319552844595 / 2 ^ 54,
      3602879701896397 / 2 ^ 55]
   = Returns [13421773 / 2 ^ 26, 13421773 / 2 ^ 25, 5033165 / 2 ^ 24, 13421773 / 2 ^ 27]"
proof -
  let ?w = "[3602879701896397 / 2 ^ 54, 3602879701896397 / 2 ^ 53,
             5404319552844595 / 2 ^ 54, 3602879701896397 / 2 ^ 55 :: real]"
  let ?r = "[13421773 / 2 ^ 26, 13421773 / 2 ^ 25, 5033165 / 2 ^ 24, 13421773 / 2 ^ 27 :: real]"
  have s: "py_sum ?w = Some (1 + 1 / 2 ^ 52)"
    by (simp add: float_eval float_eval_more)
  have t: "\<not> sum_is_one ?w"
    unfolding sum_is_one_def s
    by (simp add: float64_small float64_round_binade_m52 float_epsilon_def
        round_half_even_def Let_def)
  have g: "to_gl_float ?w = Inr ?r"
    by (simp add: float_eval float_eval_more)
  have n: "next_weights ?r = Returns ?r"
    by (simp add: next_weights_def float_eval float_eval_more)
  have e: "sum_error ?r = Some (3 / 2 ^ 27)"
    by (simp add: float_eval float_eval_more)
  have "refine 10 ?r = Returns ?r"
    using refine_stop_step [OF n e e, of 10] by simp
  with t g show ?thesis
    by (simp add: normalize_weights_compatible_with_gl_float_def normalize_with_budget_def)
qed

text \<open>
  The floats \<^verbatim>\<open>1e16, 1.0, -1e16, 0.0\<close>: their exact sum is 1, but in binary64
  \<^verbatim>\<open>1e16 + 1.0\<close> is \<^verbatim>\<open>1e16\<close>, so \<^verbatim>\<open>sum\<close> yields 0, again after the rounding to binary32,
  and the division raises ZeroDivisionError.
\<close>

lemma normalize_cancellation:
  "normalize_weights_compatible_with_gl_float [10000000000000000, 1, - 10000000000000000, 0]
   = Raises ZeroDivisionError"
proof -
  let ?w = "[10000000000000000, 1, - 10000000000000000, 0 :: real]"
  let ?r = "[10000000272564224, 1, - 10000000272564224, 0 :: real]"
  have s: "py_sum ?w = Some 0"
    by (simp add: float_eval float_eval_more)
  have "float64 (0 - 1) = Some (- 1)"
    by (simp add: float_eval)
  with s have t: "\<not> sum_is_one ?w"
    by (simp add: sum_is_one_def float_epsilon_def)
  have g: "to_gl_float ?w = Inr ?r"
    by (simp add: float_eval float_eval_more)
  have "py_sum ?r = Some 0"
    by (simp add: float_eval float_eval_more)
  then have "next_weights ?r = Raises ZeroDivisionError"
    by (simp add: next_weights_def)
  then have "refine 10 ?r = Raises ZeroDivisionError"
    by (simp add: eval_nat_numeral)
  with t g show ?thesis
    by (simp add: normalize_weights_compatible_with_gl_float_def normalize_with_budget_def)
qed

end
